theory Spec2Isabelle
  imports Main "HOL-Library.Multiset"
begin

section \<open>Job orchestration of the transcription backend\<close>

text \<open>
  The theory embeds \<^verbatim>\<open>backend/src/index.js\<close>. The file holds two revisions of the
  server: the legacy one (a queue, one spawn of \<^verbatim>\<open>whisper\<close> and a fallback
  \<^verbatim>\<open>exec\<close>) and the current one (model and language selection, the YouTube path, the
  \<^verbatim>\<open>activeJobs\<close> counter). Node runs every handler to completion before the next event
  is taken, and the continuation of an \<^verbatim>\<open>await\<close> runs as a microtask before the next
  event as well; so one event of the model is one handler together with the
  continuations it releases.
\<close>

subsection \<open>Configuration and the outside world\<close>

datatype json =
    JNull
  | JBool bool
  | JNum int int
  | JStr string
  | JArr "json list"
  | JObj "(string \<times> json) list"

text \<open>
  \<open>JNum m e\<close> is the decimal \<open>m * 10 ^ e\<close>. \<^verbatim>\<open>process.env\<close> and the library function
  \<^verbatim>\<open>JSON.parse\<close> are taken as parameters: \<open>JSON_parse\<close> gives \<open>None\<close> where
  \<^verbatim>\<open>JSON.parse\<close> throws. \<open>UPLOAD_DIR\<close> is \<^verbatim>\<open>process.env.UPLOAD_DIR || '/var/www/...'\<close>,
  taken to be an absolute, normalised path without a trailing slash, as the default is.
\<close>

record config =
  UPLOAD_DIR :: string
  USE_FASTER_WHISPER :: bool
  WHISPER_THREADS :: "string option"
  JSON_parse :: "string \<Rightarrow> json option"

definition MAX_CONCURRENT_JOBS :: int where
  "MAX_CONCURRENT_JOBS = 1"

text \<open>
  The file system as the handlers read it (\<^verbatim>\<open>existsSync\<close>, \<^verbatim>\<open>readFileSync\<close>): a path
  that exists is a file that can be read. And the two places where a library call can
  throw synchronously inside a promise executor: \<^verbatim>\<open>spawn\<close> and the set-up of the
  \<^verbatim>\<open>ytdl\<close>/\<^verbatim>\<open>ffmpeg\<close> pipeline.
\<close>

record world =
  files :: "string \<rightharpoonup> string"
  spawn_fault :: "string option"
  ytdl_fault :: "string option"

subsection \<open>Strings, numbers and paths\<close>

definition truthy :: "string \<Rightarrow> bool" where
  "truthy s = (s \<noteq> [])"

definition or_default :: "string option \<Rightarrow> string \<Rightarrow> string" where
  \<comment> \<open>\<^verbatim>\<open>x || d\<close> for a string or undefined\<close>
  "or_default x d = (case x of None \<Rightarrow> d | Some s \<Rightarrow> if truthy s then s else d)"

definition param_default :: "string option \<Rightarrow> string \<Rightarrow> string" where
  \<comment> \<open>a destructuring default \<^verbatim>\<open>{ x = d }\<close>: only undefined is replaced\<close>
  "param_default x d = (case x of None \<Rightarrow> d | Some s \<Rightarrow> s)"

definition digit_char :: "nat \<Rightarrow> char" where
  "digit_char d = ''0123456789'' ! d"

fun string_of_nat :: "nat \<Rightarrow> string" where
  "string_of_nat n =
     (if n < 10 then [digit_char n] else string_of_nat (n div 10) @ [digit_char (n mod 10)])"

declare string_of_nat.simps [simp del]

definition string_of_int :: "int \<Rightarrow> string" where
  "string_of_int i = (if i < 0 then CHR ''-'' # string_of_nat (nat (- i)) else string_of_nat (nat i))"

definition is_digit :: "char \<Rightarrow> bool" where
  "is_digit c = (c \<in> set ''0123456789'')"

definition digit_val :: "char \<Rightarrow> nat" where
  "digit_val c = length (takeWhile (\<lambda>d. d \<noteq> c) ''0123456789'')"

definition nat_of_digits :: "string \<Rightarrow> nat" where
  "nat_of_digits ds = foldl (\<lambda>n c. 10 * n + digit_val c) 0 ds"

text \<open>
  \<^verbatim>\<open>message.match(/(\d+)%/)\<close> followed by \<^verbatim>\<open>parseInt(m[1], 10)\<close>: the leftmost run of
  digits that a percent sign follows. \<open>acc\<close> is the run of digits read so far. The
  number is kept exactly; \<^verbatim>\<open>parseInt\<close> gives a double, which is the same number up to
  \<open>2 ^ 53\<close>.
\<close>

fun progress_scan :: "string \<Rightarrow> string \<Rightarrow> nat option" where
  "progress_scan acc [] = None"
| "progress_scan acc (c # cs) =
     (if is_digit c then progress_scan (acc @ [c]) cs
      else if c = CHR ''%'' \<and> acc \<noteq> [] then Some (nat_of_digits acc)
      else progress_scan [] cs)"

definition progressMatch :: "string \<Rightarrow> nat option" where
  "progressMatch message = progress_scan [] message"

definition is_slash :: "char \<Rightarrow> bool" where
  "is_slash c = (c = CHR ''/'')"

definition path_basename :: "string \<Rightarrow> string" where
  \<comment> \<open>\<^verbatim>\<open>path.basename(p)\<close>: trailing slashes dropped, then the last component\<close>
  "path_basename p =
     rev (takeWhile (\<lambda>c. \<not> is_slash c) (dropWhile is_slash (rev p)))"

definition path_extname :: "string \<Rightarrow> string" where
  \<comment> \<open>\<^verbatim>\<open>path.extname(p)\<close>: from the last dot of the last component; empty when there is
      no dot, when the component starts with its last dot, and for \<^verbatim>\<open>..\<close>\<close>
  "path_extname p =
     (let base = path_basename p;
          ext = rev (takeWhile (\<lambda>c. c \<noteq> CHR ''.'') (rev base))
      in if CHR ''.'' \<notin> set base then []
         else if length base = Suc (length ext) then []
         else if base = ''..'' then []
         else CHR ''.'' # ext)"

definition ends_with :: "string \<Rightarrow> string \<Rightarrow> bool" where
  "ends_with s suffix = (length suffix \<le> length s \<and> drop (length s - length suffix) s = suffix)"

definition path_basename_ext :: "string \<Rightarrow> string \<Rightarrow> string" where
  \<comment> \<open>\<^verbatim>\<open>path.basename(p, suffix)\<close> where the suffix is empty or a proper suffix of the
      last component, as \<^verbatim>\<open>path.extname(p)\<close> is\<close>
  "path_basename_ext p suffix =
     (let base = path_basename p
      in if suffix \<noteq> [] \<and> length suffix \<le> length p then
           (if suffix = p then []
            else if ends_with base suffix \<and> base \<noteq> suffix
                 then take (length base - length suffix) base
            else base)
         else base)"

definition path_join :: "string \<Rightarrow> string \<Rightarrow> string" where
  \<comment> \<open>\<^verbatim>\<open>path.join(dir, name)\<close> for a normalised \<open>dir\<close> without a trailing slash and a
      single component \<open>name\<close>; \<^verbatim>\<open>path.join\<close> would also normalise any other \<open>dir\<close>\<close>
  "path_join dir name = dir @ ''/'' @ name"

definition path_resolve :: "string \<Rightarrow> string" where
  \<comment> \<open>\<^verbatim>\<open>path.resolve(p)\<close>: the queue only ever holds absolute paths made by multer
      and by \<^verbatim>\<open>path.join(UPLOAD_DIR, ...)\<close>\<close>
  "path_resolve p = p"

definition existsSync :: "world \<Rightarrow> string \<Rightarrow> bool" where
  "existsSync w p = (files w p \<noteq> None)"

definition txtFile_of :: "config \<Rightarrow> string \<Rightarrow> string" where
  "txtFile_of cfg inputPath =
     path_join (UPLOAD_DIR cfg) (path_basename_ext inputPath (path_extname inputPath) @ ''.txt'')"

definition jsonFile_of :: "config \<Rightarrow> string \<Rightarrow> string" where
  "jsonFile_of cfg inputPath =
     path_join (UPLOAD_DIR cfg) (path_basename_ext inputPath (path_extname inputPath) @ ''.json'')"

subsection \<open>The registry, the queue and the processes in flight\<close>

record video_details =
  title :: string
  duration :: "int option"
  author :: string
  thumbnailUrl :: string

text \<open>
  \<open>duration\<close> is \<^verbatim>\<open>parseInt(info.videoDetails.lengthSeconds)\<close>: \<open>None\<close> is \<^verbatim>\<open>NaN\<close>.
  An entry of the Map \<^verbatim>\<open>transcriptions\<close> is one of the object shapes the code stores.
  Times (\<^verbatim>\<open>new Date().toISOString()\<close>) are kept as the clock reading.
\<close>

datatype entry =
    Started string nat string string nat
      \<comment> \<open>filename, filesize, model, language, startedAt\<close>
  | StartedYoutube string string video_details string string nat
      \<comment> \<open>filename, videoId, videoDetails, model, language, startedAt\<close>
  | Processing "int option" string
      \<comment> \<open>progress (when present), details\<close>
  | Completed string json string string string string "string option" nat
      \<comment> \<open>transcription, segments, model, language, inputFile, outputFiles.txt,
          outputFiles.json, completedAt\<close>
  | Error string "string option"
      \<comment> \<open>error, details (when present)\<close>

fun status :: "entry \<Rightarrow> string" where
  "status (Started _ _ _ _ _) = ''started''"
| "status (StartedYoutube _ _ _ _ _ _) = ''started''"
| "status (Processing _ _) = ''processing''"
| "status (Completed _ _ _ _ _ _ _ _) = ''completed''"
| "status (Error _ _) = ''error''"

record queue_entry =
  filePath :: string
  jobId :: string
  model :: string
  language :: string

text \<open>
  A child process made by \<^verbatim>\<open>spawn\<close>, with the variables its handlers close over.
  \<open>p_settled\<close> says that \<^verbatim>\<open>resolve\<close> or \<^verbatim>\<open>reject\<close> of the promise that
  \<^verbatim>\<open>transcribeAudio\<close> returned has been called: a later call does nothing.
\<close>

record proc =
  p_jobId :: string
  p_inputPath :: string
  p_validModel :: string
  p_language :: string
  p_output :: string
  p_errorOutput :: string
  p_settled :: bool

record download =
  d_jobId :: string
  d_videoId :: string
  d_outputPath :: string
  d_model :: string
  d_language :: string
  d_settled :: bool

text \<open>
  The module's variables, the processes and downloads whose handlers are registered, the
  outside world, and two logs that the code does not keep: every \<^verbatim>\<open>spawn\<close> call with
  its arguments, and every dispatch record taken off the queue, in order.
\<close>

record state =
  transcriptions :: "string \<rightharpoonup> entry"
  transcriptionQueue :: "queue_entry list"
  isProcessing :: bool
  activeJobs :: int
  procs :: "proc list"
  downloads :: "download list"
  env :: world
  spawned :: "(string \<times> string list) list"
  dispatched :: "queue_entry list"

definition init :: "world \<Rightarrow> state" where
  "init w = \<lparr>transcriptions = Map.empty, transcriptionQueue = [], isProcessing = False,
             activeJobs = 0, procs = [], downloads = [], env = w, spawned = [],
             dispatched = []\<rparr>"

definition set_entry :: "string \<Rightarrow> entry \<Rightarrow> state \<Rightarrow> state" where
  \<comment> \<open>\<^verbatim>\<open>transcriptions.set(jobId, e)\<close>\<close>
  "set_entry j e s = s\<lparr>transcriptions := (transcriptions s)(j \<mapsto> e)\<rparr>"

definition status_of :: "state \<Rightarrow> string \<Rightarrow> string option" where
  "status_of s j = map_option status (transcriptions s j)"

subsection \<open>The adapter: \<^verbatim>\<open>transcribeAudio\<close>\<close>

definition AVAILABLE_MODELS :: "(string \<times> string \<times> string) list" where
  "AVAILABLE_MODELS =
     [(''tiny'', ''Tiny'', ''Fastest, least accurate''),
      (''base'', ''Base'', ''Fast, reasonable accuracy''),
      (''small'', ''Small'', ''Good balance of speed and accuracy''),
      (''medium'', ''Medium'', ''High accuracy, slower''),
      (''large'', ''Large'', ''Highest accuracy, slowest'')]"

definition LANGUAGES :: "(string \<times> string) list" where
  \<comment> \<open>the list that \<^verbatim>\<open>GET /api/languages\<close> returns\<close>
  "LANGUAGES =
     [(''auto'', ''Auto-detect''), (''en'', ''English''), (''fr'', ''French''),
      (''de'', ''German''), (''es'', ''Spanish''), (''it'', ''Italian''),
      (''pt'', ''Portuguese''), (''nl'', ''Dutch''), (''ru'', ''Russian''),
      (''zh'', ''Chinese''), (''ar'', ''Arabic''), (''ja'', ''Japanese''),
      (''ko'', ''Korean''), (''hi'', ''Hindi''), (''yo'', ''Yoruba''),
      (''ha'', ''Hausa''), (''ig'', ''Igbo'')]"

definition validModel_of :: "string \<Rightarrow> string" where
  "validModel_of m = (if find (\<lambda>a. fst a = m) AVAILABLE_MODELS \<noteq> None then m else ''medium'')"

definition language_args :: "string \<Rightarrow> string list" where
  \<comment> \<open>\<^verbatim>\<open>if (language && language !== 'auto') whisperArgs.push('--language', language)\<close>\<close>
  "language_args l = (if truthy l \<and> l \<noteq> ''auto'' then [''--language'', l] else [])"

definition whisper_command :: "config \<Rightarrow> string \<Rightarrow> string \<Rightarrow> string \<Rightarrow> string \<times> string list" where
  "whisper_command cfg absolutePath validModel l =
     (if USE_FASTER_WHISPER cfg then
        (''faster-whisper'',
         [''--model'', validModel, ''--output_dir'', UPLOAD_DIR cfg, ''--output_format'', ''all'',
          ''--threads'', or_default (WHISPER_THREADS cfg) ''4'', ''--beam_size'', ''5'',
          ''--best_of'', ''5'', ''--temperature'', ''0'']
         @ language_args l @ [absolutePath])
      else
        (''whisper'',
         [absolutePath, ''--model'', validModel, ''--output_dir'', UPLOAD_DIR cfg,
          ''--device'', ''cpu'', ''--threads'', or_default (WHISPER_THREADS cfg) ''2'']
         @ language_args l))"

datatype promise = Pending | Resolved | Rejected string

text \<open>
  The synchronous part of \<^verbatim>\<open>transcribeAudio\<close>, up to the promise it returns. A missing
  input file sets the error and returns (the promise is resolved). An exception inside
  the executor of \<^verbatim>\<open>new Promise\<close> rejects the promise; the \<^verbatim>\<open>try\<close> around it does not
  see it, since the promise is returned and not awaited there.
\<close>

definition transcribeAudio :: "config \<Rightarrow> string \<Rightarrow> string \<Rightarrow> string \<Rightarrow> string \<Rightarrow> state \<Rightarrow> promise \<times> state" where
  "transcribeAudio cfg inputPath j m l s =
     (if \<not> existsSync (env s) inputPath then
        (Resolved, set_entry j (Error (''Input file not found: '' @ inputPath) None) s)
      else
        (case spawn_fault (env s) of
           Some msg \<Rightarrow> (Rejected msg, s)
         | None \<Rightarrow>
            (Pending,
             s\<lparr>procs := procs s @
                  [\<lparr>p_jobId = j, p_inputPath = inputPath, p_validModel = validModel_of m,
                    p_language = l, p_output = [], p_errorOutput = [], p_settled = False\<rparr>],
               spawned := spawned s @
                  [whisper_command cfg (path_resolve inputPath) (validModel_of m) l]\<rparr>)))"

definition on_stdout :: "nat \<Rightarrow> string \<Rightarrow> state \<Rightarrow> state" where
  "on_stdout i message s =
     (let p = procs s ! i; out = p_output p @ message
      in set_entry (p_jobId p)
           (Processing (map_option int (progressMatch message)) out)
           (s\<lparr>procs := (procs s)[i := p\<lparr>p_output := out\<rparr>]\<rparr>))"

definition on_stderr :: "nat \<Rightarrow> string \<Rightarrow> state \<Rightarrow> state" where
  "on_stderr i message s =
     (let p = procs s ! i
      in s\<lparr>procs := (procs s)[i := p\<lparr>p_errorOutput := p_errorOutput p @ message\<rparr>]\<rparr>)"

definition js_truthy :: "json \<Rightarrow> bool" where
  "js_truthy v = (case v of JNull \<Rightarrow> False | JBool b \<Rightarrow> b | JNum m e \<Rightarrow> m \<noteq> 0
                  | JStr t \<Rightarrow> t \<noteq> [] | JArr _ \<Rightarrow> True | JObj _ \<Rightarrow> True)"

definition segments_of :: "json option \<Rightarrow> json" where
  \<comment> \<open>\<^verbatim>\<open>segments = []\<close>, then inside \<^verbatim>\<open>try\<close>: \<^verbatim>\<open>segments = jsonData.segments || []\<close>.
      A parse error and the TypeError of \<^verbatim>\<open>null.segments\<close> are caught.\<close>
  "segments_of parsed =
     (case parsed of
        None \<Rightarrow> JArr []
      | Some (JObj kvs) \<Rightarrow>
          (case map_of (rev kvs) ''segments'' of
             None \<Rightarrow> JArr []
           | Some v \<Rightarrow> if js_truthy v then v else JArr [])
      | Some _ \<Rightarrow> JArr [])"

definition read_segments :: "config \<Rightarrow> world \<Rightarrow> string \<Rightarrow> json" where
  "read_segments cfg w jsonFile =
     (case files w jsonFile of
        None \<Rightarrow> JArr []
      | Some text \<Rightarrow> segments_of (JSON_parse cfg text))"

text \<open>
  The \<^verbatim>\<open>close\<close> handler of the current revision. The exit code is only logged. It
  returns how it settles the promise, and the state after its registry update.
\<close>

definition on_close :: "config \<Rightarrow> nat \<Rightarrow> int option \<Rightarrow> nat \<Rightarrow> state \<Rightarrow> promise \<times> state" where
  "on_close cfg i code now s =
     (let p = procs s ! i;
          txtFile = txtFile_of cfg (p_inputPath p);
          jsonFile = jsonFile_of cfg (p_inputPath p)
      in case files (env s) txtFile of
           Some transcription \<Rightarrow>
             (Resolved,
              set_entry (p_jobId p)
                (Completed transcription (read_segments cfg (env s) jsonFile) (p_validModel p)
                   (if truthy (p_language p) then p_language p else ''auto'')
                   (path_basename (p_inputPath p)) (path_basename txtFile)
                   (if existsSync (env s) jsonFile then Some (path_basename jsonFile) else None)
                   now) s)
         | None \<Rightarrow>
             (Rejected ''Transcription file not found'',
              set_entry (p_jobId p)
                (Error ''Failed to generate transcription output''
                   (Some (if truthy (p_errorOutput p) then p_errorOutput p
                          else ''Unknown error during transcription process''))) s))"

definition on_error :: "nat \<Rightarrow> string \<Rightarrow> state \<Rightarrow> promise \<times> state" where
  "on_error i msg s = (Rejected msg, set_entry (p_jobId (procs s ! i)) (Error msg None) s)"

subsection \<open>The scheduler: \<^verbatim>\<open>processQueue\<close>\<close>

definition blocked :: "state \<Rightarrow> bool" where
  "blocked s =
     (isProcessing s \<or> transcriptionQueue s = [] \<or> activeJobs s \<ge> MAX_CONCURRENT_JOBS)"

text \<open>
  One pass of \<^verbatim>\<open>processQueue\<close> from the guard to the \<^verbatim>\<open>await\<close>: the flag, the
  \<^verbatim>\<open>shift\<close>, the counter and the call of \<^verbatim>\<open>transcribeAudio\<close>. The records of the queue
  are built by the two request handlers, which always give \<^verbatim>\<open>model\<close> and \<^verbatim>\<open>language\<close>, so
  the defaults of the destructuring never apply.
\<close>

definition start_head :: "config \<Rightarrow> state \<Rightarrow> promise \<times> state" where
  "start_head cfg s =
     (let e = hd (transcriptionQueue s)
      in transcribeAudio cfg (filePath e) (jobId e) (model e) (language e)
           (s\<lparr>isProcessing := True,
              transcriptionQueue := tl (transcriptionQueue s),
              dispatched := dispatched s @ [e],
              activeJobs := activeJobs s + 1\<rparr>))"

text \<open>
  What \<^verbatim>\<open>processQueue\<close> does after the \<^verbatim>\<open>await\<close>, before it calls itself: the counter
  goes down, a rejection is recorded by the \<^verbatim>\<open>catch\<close>, the flag is cleared.
\<close>

definition after_await :: "promise \<Rightarrow> string \<Rightarrow> state \<Rightarrow> state" where
  "after_await p j s =
     (case p of
        Rejected msg \<Rightarrow>
          (set_entry j (Error ''Failed to process file in queue'' (Some msg))
             (s\<lparr>activeJobs := activeJobs s - 1\<rparr>))\<lparr>isProcessing := False\<rparr>
      | _ \<Rightarrow> s\<lparr>activeJobs := activeJobs s - 1, isProcessing := False\<rparr>)"

function processQueue :: "config \<Rightarrow> state \<Rightarrow> state" where
  "processQueue cfg s =
     (if blocked s then s
      else if fst (start_head cfg s) = Pending then snd (start_head cfg s)
      else processQueue cfg
             (after_await (fst (start_head cfg s)) (jobId (hd (transcriptionQueue s)))
                (snd (start_head cfg s))))"
  by pat_completeness auto
termination
  by (relation "measure (\<lambda>(cfg, s). length (transcriptionQueue s))")
     (auto simp: blocked_def start_head_def transcribeAudio_def after_await_def set_entry_def
        Let_def split: option.split promise.split)

declare processQueue.simps [simp del]

text \<open>
  A handler of process \<open>i\<close> calls \<^verbatim>\<open>resolve\<close> or \<^verbatim>\<open>reject\<close>. The first call releases the
  \<^verbatim>\<open>processQueue\<close> that awaits the promise; it goes on after the \<^verbatim>\<open>await\<close> and calls
  \<^verbatim>\<open>processQueue\<close> again.
\<close>

definition settle_proc :: "config \<Rightarrow> nat \<Rightarrow> promise \<Rightarrow> state \<Rightarrow> state" where
  "settle_proc cfg i p s =
     (let pr = procs s ! i
      in if p_settled pr then s
         else processQueue cfg
                (after_await p (p_jobId pr)
                   (s\<lparr>procs := (procs s)[i := pr\<lparr>p_settled := True\<rparr>]\<rparr>)))"

subsection \<open>The request handlers\<close>

datatype response =
    Accepted string
  | Refused nat string

record upload_file =
  f_path :: string
  f_originalname :: string
  f_size :: nat

text \<open>
  \<^verbatim>\<open>POST /api/transcribe\<close>. Of the response only the status code, the error text and
  the job id are kept.
\<close>

definition transcribe :: "config \<Rightarrow> upload_file option \<Rightarrow> string option \<Rightarrow> string option \<Rightarrow> nat \<Rightarrow> state \<Rightarrow> response \<times> state" where
  "transcribe cfg file body_model body_language now s =
     (case file of
        None \<Rightarrow> (Refused 400 ''No audio file provided'', s)
      | Some f \<Rightarrow>
          (let j = string_of_nat now;
               m = or_default body_model ''medium'';
               l = or_default body_language ''en'';
               s1 = set_entry j (Started (f_originalname f) (f_size f) m l now) s;
               s2 = s1\<lparr>transcriptionQueue := transcriptionQueue s1 @
                      [\<lparr>filePath = f_path f, jobId = j, model = m, language = l\<rparr>]\<rparr>
           in (Accepted j, processQueue cfg s2)))"

definition too_long :: "int option \<Rightarrow> bool" where
  \<comment> \<open>\<^verbatim>\<open>videoDetails.duration > 1800\<close>; a comparison with NaN is false\<close>
  "too_long d = (case d of None \<Rightarrow> False | Some n \<Rightarrow> n > 1800)"

text \<open>
  The executor of \<^verbatim>\<open>downloadYoutubeAudio\<close>: the registry update, then the set-up of the
  stream and of the converter, whose handlers are registered from then on.
\<close>

definition downloadYoutubeAudio :: "config \<Rightarrow> string \<Rightarrow> string \<Rightarrow> string \<Rightarrow> string \<Rightarrow> nat \<Rightarrow> state \<Rightarrow> promise \<times> state" where
  "downloadYoutubeAudio cfg videoId j m l now s =
     (let outputPath = path_join (UPLOAD_DIR cfg)
                         (string_of_nat now @ ''-youtube-'' @ videoId @ ''.mp3'');
          s1 = set_entry j (Processing (Some 0) ''Downloading audio from YouTube...'') s
      in case ytdl_fault (env s) of
           Some msg \<Rightarrow> (Rejected msg, s1)
         | None \<Rightarrow>
             (Pending,
              s1\<lparr>downloads := downloads s1 @
                   [\<lparr>d_jobId = j, d_videoId = videoId, d_outputPath = outputPath,
                     d_model = m, d_language = l, d_settled = False\<rparr>]\<rparr>))"

text \<open>
  \<^verbatim>\<open>POST /api/transcribe-youtube\<close>, from the moment \<^verbatim>\<open>getYoutubeVideoDetails\<close> has
  answered (nothing before that touches the state). \<open>extracted\<close> is the result of
  \<^verbatim>\<open>extractYoutubeVideoId(youtubeUrl)\<close>, a regular expression that is not modelled;
  \<open>info\<close> is the answer of \<^verbatim>\<open>getYoutubeVideoDetails\<close>, \<open>Inl\<close> when it throws.
\<close>

definition transcribe_youtube :: "config \<Rightarrow> string option \<Rightarrow> string option \<Rightarrow> string option \<Rightarrow> string option \<Rightarrow> string + video_details \<Rightarrow> nat \<Rightarrow> state \<Rightarrow> response \<times> state" where
  "transcribe_youtube cfg youtubeUrl extracted body_model body_language info now s =
     (let m = param_default body_model ''medium'';
          l = param_default body_language ''en''
      in if \<not> truthy (param_default youtubeUrl []) then (Refused 400 ''No YouTube URL provided'', s)
         else case extracted of
           None \<Rightarrow> (Refused 400 ''Invalid YouTube URL'', s)
         | Some videoId \<Rightarrow>
            (case info of
               Inl err \<Rightarrow>
                 (Refused 400
                    ''Unable to fetch video details. The video might be private or not exist.'', s)
             | Inr videoDetails \<Rightarrow>
                 if too_long (duration videoDetails) then
                   (Refused 400 ''Video is too long. Maximum duration is 30 minutes.'', s)
                 else
                   (let j = string_of_nat now;
                        s1 = set_entry j
                               (StartedYoutube (''YouTube: '' @ title videoDetails) videoId
                                  videoDetails m l now) s;
                        r = downloadYoutubeAudio cfg videoId j m l now s1
                    in (Accepted j,
                        case fst r of
                          Rejected msg \<Rightarrow>
                            set_entry j (Error ''Failed to process YouTube video'' (Some msg))
                              (snd r)
                        | _ \<Rightarrow> snd r))))"

definition round_percent :: "nat \<Rightarrow> nat \<Rightarrow> nat" where
  \<comment> \<open>\<^verbatim>\<open>Math.round((downloaded / tot) * 100)\<close> for \<open>tot > 0\<close>, with the quotient taken
      exactly; the code rounds the floating-point product, which can be one less
      (23 of 40 bytes: 58 here, 57 there)\<close>
  "round_percent downloaded tot = (200 * downloaded + tot) div (2 * tot)"

definition on_ytdl_progress :: "nat \<Rightarrow> nat \<Rightarrow> nat \<Rightarrow> state \<Rightarrow> state" where
  "on_ytdl_progress i downloaded tot s =
     (if tot > 0 then
        set_entry (d_jobId (downloads s ! i))
          (Processing (Some (int (round_percent downloaded tot)))
             (''Downloading audio from YouTube... ''
                @ string_of_nat (round_percent downloaded tot) @ ''%'')) s
      else s)"

definition on_ffmpeg_progress :: "nat \<Rightarrow> int option \<Rightarrow> state \<Rightarrow> state" where
  \<comment> \<open>\<open>percent\<close> is \<^verbatim>\<open>Math.round(progress.percent)\<close>, \<open>None\<close> when
      \<^verbatim>\<open>progress.percent\<close> is falsy\<close>
  "on_ffmpeg_progress i percent s =
     (case percent of
        None \<Rightarrow> s
      | Some n \<Rightarrow>
          set_entry (d_jobId (downloads s ! i))
            (Processing (Some n) (''Converting video to audio... '' @ string_of_int n @ ''%'')) s)"

text \<open>
  The converter ends: \<^verbatim>\<open>resolve(outputPath)\<close> lets the request handler go on, which
  appends the dispatch record and calls \<^verbatim>\<open>processQueue\<close>. The converter fails:
  \<^verbatim>\<open>reject(err)\<close>, and the handler's \<^verbatim>\<open>catch\<close> records the failure.
\<close>

definition on_ffmpeg_end :: "config \<Rightarrow> nat \<Rightarrow> state \<Rightarrow> state" where
  "on_ffmpeg_end cfg i s =
     (let d = downloads s ! i
      in if d_settled d then s
         else processQueue cfg
                (s\<lparr>downloads := (downloads s)[i := d\<lparr>d_settled := True\<rparr>],
                   transcriptionQueue := transcriptionQueue s @
                     [\<lparr>filePath = d_outputPath d, jobId = d_jobId d, model = d_model d,
                       language = d_language d\<rparr>]\<rparr>))"

definition on_ffmpeg_error :: "nat \<Rightarrow> string \<Rightarrow> state \<Rightarrow> state" where
  "on_ffmpeg_error i msg s =
     (let d = downloads s ! i
      in if d_settled d then s
         else set_entry (d_jobId d) (Error ''Failed to process YouTube video'' (Some msg))
                (s\<lparr>downloads := (downloads s)[i := d\<lparr>d_settled := True\<rparr>]\<rparr>))"

subsection \<open>Events\<close>

text \<open>
  An event is a request, a callback of child process \<open>i\<close> or of download \<open>i\<close> (numbered
  in the order they were started), or a change of the outside world. A callback for a
  number that was never given out does nothing.
\<close>

datatype event =
    Upload "upload_file option" "string option" "string option" nat
  | Youtube "string option" "string option" "string option" "string option"
      "string + video_details" nat
  | Stdout nat string
  | Stderr nat string
  | Close nat "int option" nat
  | ProcError nat string
  | YtdlProgress nat nat nat
  | FfmpegProgress nat "int option"
  | FfmpegEnd nat
  | FfmpegError nat string
  | World world

fun step :: "config \<Rightarrow> event \<Rightarrow> state \<Rightarrow> state" where
  "step cfg (Upload file m l now) s = snd (transcribe cfg file m l now s)"
| "step cfg (Youtube url extracted m l info now) s =
     snd (transcribe_youtube cfg url extracted m l info now s)"
| "step cfg (Stdout i message) s = (if i < length (procs s) then on_stdout i message s else s)"
| "step cfg (Stderr i message) s = (if i < length (procs s) then on_stderr i message s else s)"
| "step cfg (Close i code now) s =
     (if i < length (procs s)
      then settle_proc cfg i (fst (on_close cfg i code now s)) (snd (on_close cfg i code now s))
      else s)"
| "step cfg (ProcError i msg) s =
     (if i < length (procs s)
      then settle_proc cfg i (fst (on_error i msg s)) (snd (on_error i msg s))
      else s)"
| "step cfg (YtdlProgress i downloaded tot) s =
     (if i < length (downloads s) then on_ytdl_progress i downloaded tot s else s)"
| "step cfg (FfmpegProgress i percent) s =
     (if i < length (downloads s) then on_ffmpeg_progress i percent s else s)"
| "step cfg (FfmpegEnd i) s = (if i < length (downloads s) then on_ffmpeg_end cfg i s else s)"
| "step cfg (FfmpegError i msg) s =
     (if i < length (downloads s) then on_ffmpeg_error i msg s else s)"
| "step cfg (World w) s = s\<lparr>env := w\<rparr>"

definition run :: "config \<Rightarrow> event list \<Rightarrow> state \<Rightarrow> state" where
  "run cfg es s = foldl (\<lambda>t e. step cfg e t) s es"

subsection \<open>The legacy adapter\<close>

text \<open>
  The first revision in the file keeps only a status and a text per job, has a fixed
  upload directory, and on \<^verbatim>\<open>close\<close> without a transcript runs \<^verbatim>\<open>whisper\<close> once more through
  \<^verbatim>\<open>exec\<close>.
\<close>

datatype legacy_entry =
    LStarted
  | LProcessing string
  | LCompleted string
  | LError string "string option"

fun legacy_status :: "legacy_entry \<Rightarrow> string" where
  "legacy_status LStarted = ''started''"
| "legacy_status (LProcessing _) = ''processing''"
| "legacy_status (LCompleted _) = ''completed''"
| "legacy_status (LError _ _) = ''error''"

definition legacy_UPLOAD_DIR :: string where
  "legacy_UPLOAD_DIR = ''/var/www/whisper-app/backend/uploads''"

definition legacy_txtFile :: "string \<Rightarrow> string" where
  "legacy_txtFile inputPath =
     path_join legacy_UPLOAD_DIR
       (path_basename_ext inputPath (path_extname inputPath) @ ''.txt'')"

definition legacy_command :: "string \<Rightarrow> string" where
  "legacy_command absolutePath =
     ''cd '' @ legacy_UPLOAD_DIR @ '' && whisper \"'' @ absolutePath
       @ ''\" --model medium --language en --device cpu --threads 2''"

datatype legacy_next = LSettled promise | LExec string

definition legacy_on_close :: "world \<Rightarrow> string \<Rightarrow> string \<Rightarrow> (string \<rightharpoonup> legacy_entry) \<Rightarrow> legacy_next \<times> (string \<rightharpoonup> legacy_entry)" where
  "legacy_on_close w inputPath j reg =
     (case files w (legacy_txtFile inputPath) of
        Some transcription \<Rightarrow> (LSettled Resolved, reg(j \<mapsto> LCompleted transcription))
      | None \<Rightarrow> (LExec (legacy_command (path_resolve inputPath)), reg))"

text \<open>
  The callback of \<^verbatim>\<open>exec\<close>; \<open>err\<close> is \<^verbatim>\<open>error.message\<close> when \<^verbatim>\<open>exec\<close> reports an error.
\<close>

definition legacy_on_exec :: "world \<Rightarrow> string option \<Rightarrow> string \<Rightarrow> string \<Rightarrow> (string \<rightharpoonup> legacy_entry) \<Rightarrow> promise \<times> (string \<rightharpoonup> legacy_entry)" where
  "legacy_on_exec w err inputPath j reg =
     (case err of
        Some msg \<Rightarrow> (Rejected msg, reg(j \<mapsto> LError ''Failed to transcribe audio'' (Some msg)))
      | None \<Rightarrow>
          (case files w (legacy_txtFile inputPath) of
             Some transcription \<Rightarrow> (Resolved, reg(j \<mapsto> LCompleted transcription))
           | None \<Rightarrow>
               (Rejected ''Transcription file not found after direct command'',
                reg(j \<mapsto> LError ''Transcription file not found after direct command'' None))))"

text \<open>
  From the exit of the spawned process to the settled promise: \<open>w\<close> is the world at
  \<^verbatim>\<open>close\<close>, \<open>err\<close> and \<open>w'\<close> are what the fallback command reports and leaves behind.
  The first component lists the commands given to \<^verbatim>\<open>exec\<close>.
\<close>

definition legacy_exit :: "world \<Rightarrow> string option \<Rightarrow> world \<Rightarrow> string \<Rightarrow> string \<Rightarrow> (string \<rightharpoonup> legacy_entry) \<Rightarrow> string list \<times> promise \<times> (string \<rightharpoonup> legacy_entry)" where
  "legacy_exit w err w' inputPath j reg =
     (case fst (legacy_on_close w inputPath j reg) of
        LSettled p \<Rightarrow> ([], p, snd (legacy_on_close w inputPath j reg))
      | LExec cmd \<Rightarrow>
          ([cmd], legacy_on_exec w' err inputPath j (snd (legacy_on_close w inputPath j reg))))"

subsection \<open>Notions used to state the properties\<close>

fun transcript :: "entry \<Rightarrow> string option" where
  "transcript (Completed t _ _ _ _ _ _ _) = Some t"
| "transcript _ = None"

fun segments :: "entry \<Rightarrow> json option" where
  "segments (Completed _ sg _ _ _ _ _ _) = Some sg"
| "segments _ = None"

definition in_flight :: "state \<Rightarrow> proc list" where
  \<comment> \<open>the engine invocations whose promise is not settled yet\<close>
  "in_flight s = filter (\<lambda>p. \<not> p_settled p) (procs s)"


definition forward :: "string option \<Rightarrow> string option \<Rightarrow> bool" where
  \<comment> \<open>a status may stay or move on; \<open>completed\<close> is final, and \<open>error\<close> can only still
      become \<open>completed\<close>\<close>
  "forward a b =
     (case a of
        None \<Rightarrow> True
      | Some x \<Rightarrow>
          if x = ''started'' then b \<noteq> None
          else if x = ''processing''
               then b = Some ''processing'' \<or> b = Some ''completed'' \<or> b = Some ''error''
          else if x = ''error'' then b = Some ''error'' \<or> b = Some ''completed''
          else b = a)"







definition balanced :: "state \<Rightarrow> bool" where
  "balanced s =
     (activeJobs s = (if isProcessing s then 1 else 0)
      \<and> length (in_flight s) = (if isProcessing s then 1 else 0))"

definition processing_among :: "state \<Rightarrow> string list \<Rightarrow> nat" where
  \<comment> \<open>how many of the jobs \<open>js\<close> the registry shows as \<open>processing\<close>\<close>
  "processing_among s js =
     length (filter (\<lambda>j. status_of s j = Some ''processing'') (remdups js))"

definition pass :: "config \<Rightarrow> state \<Rightarrow> state" where
  \<comment> \<open>one turn of the loop whose promise is settled at once\<close>
  "pass cfg s =
     after_await (fst (start_head cfg s)) (jobId (hd (transcriptionQueue s)))
       (snd (start_head cfg s))"

subsection \<open>A small installation, for concrete runs\<close>

definition example_config :: config where
  "example_config =
     \<lparr>UPLOAD_DIR = ''/up'', USE_FASTER_WHISPER = False, WHISPER_THREADS = None,
      JSON_parse = (\<lambda>t. if t = ''{}'' then Some (JObj []) else None)\<rparr>"

definition example_world :: world where
  "example_world =
     \<lparr>files = [''/up/1-a.mp3'' \<mapsto> ''audio'', ''/up/2-b.mp3'' \<mapsto> ''audio''],
      spawn_fault = None, ytdl_fault = None\<rparr>"

definition upload_a :: upload_file where
  "upload_a = \<lparr>f_path = ''/up/1-a.mp3'', f_originalname = ''a.mp3'', f_size = 10\<rparr>"

definition upload_b :: upload_file where
  "upload_b = \<lparr>f_path = ''/up/2-b.mp3'', f_originalname = ''b.mp3'', f_size = 20\<rparr>"

definition example_video :: "int \<Rightarrow> video_details" where
  "example_video n = \<lparr>title = ''talk'', duration = Some n, author = ''someone'',
                       thumbnailUrl = ''https://i.ytimg.com/vi/abcdefghijk/default.jpg''\<rparr>"

definition done_world :: world where
  \<comment> \<open>the engine has written a transcript for \<^verbatim>\<open>1-a.mp3\<close>, and a segments file that is
      not JSON\<close>
  "done_world =
     \<lparr>files = [''/up/1-a.mp3'' \<mapsto> ''audio'', ''/up/2-b.mp3'' \<mapsto> ''audio'',
               ''/up/1-a.txt'' \<mapsto> ''hello world'', ''/up/1-a.json'' \<mapsto> ''{broken'',
               ''/var/www/whisper-app/backend/uploads/1-a.txt'' \<mapsto> ''hello world''],
      spawn_fault = None, ytdl_fault = None\<rparr>"

definition faulty_world :: world where
  \<comment> \<open>\<^verbatim>\<open>spawn\<close> throws\<close>
  "faulty_world =
     \<lparr>files = [''/up/1-a.mp3'' \<mapsto> ''audio'', ''/up/2-b.mp3'' \<mapsto> ''audio''],
      spawn_fault = Some ''EINVAL'', ytdl_fault = None\<rparr>"

lemmas example_defs =
  example_config_def example_world_def upload_a_def upload_b_def example_video_def
  done_world_def faulty_world_def

lemmas eval_defs =
  run_def init_def transcribe_def transcribe_youtube_def downloadYoutubeAudio_def
  processQueue.simps blocked_def start_head_def transcribeAudio_def after_await_def
  settle_proc_def on_stdout_def on_stderr_def on_close_def on_error_def
  on_ytdl_progress_def on_ffmpeg_progress_def on_ffmpeg_end_def on_ffmpeg_error_def
  set_entry_def status_of_def existsSync_def MAX_CONCURRENT_JOBS_def
  string_of_nat.simps digit_char_def or_default_def param_default_def truthy_def
  too_long_def validModel_of_def AVAILABLE_MODELS_def language_args_def
  whisper_command_def path_resolve_def path_join_def txtFile_of_def jsonFile_of_def
  path_basename_def path_extname_def path_basename_ext_def ends_with_def is_slash_def
  read_segments_def segments_of_def Let_def

section \<open>Paths\<close>

lemma length_path_basename: "length (path_basename p) \<le> length p"
proof -
  have "length (takeWhile (\<lambda>c. \<not> is_slash c) (dropWhile is_slash (rev p)))
          \<le> length (dropWhile is_slash (rev p))"
    by (rule length_takeWhile_le)
  also have "\<dots> \<le> length (rev p)" by (rule length_dropWhile_le)
  finally show ?thesis by (simp add: path_basename_def)
qed

lemma split_last_dot:
  assumes "CHR ''.'' \<in> set b"
  shows "\<exists>pre. b = pre @ CHR ''.'' # rev (takeWhile (\<lambda>c. c \<noteq> CHR ''.'') (rev b))"
proof -
  let ?P = "\<lambda>c. c \<noteq> CHR ''.''"
  from assms have "dropWhile ?P (rev b) \<noteq> []" by (simp add: dropWhile_eq_Nil_conv)
  then obtain x rest where d: "dropWhile ?P (rev b) = x # rest"
    by (cases "dropWhile ?P (rev b)") simp_all
  from hd_dropWhile [of ?P "rev b"] d have x: "x = CHR ''.''" by auto
  have "rev b = takeWhile ?P (rev b) @ dropWhile ?P (rev b)" by simp
  then have "rev b = takeWhile ?P (rev b) @ CHR ''.'' # rest" by (simp only: d x)
  then have "rev (rev b) = rev (takeWhile ?P (rev b) @ CHR ''.'' # rest)" by (rule arg_cong)
  then have "b = rev rest @ CHR ''.'' # rev (takeWhile ?P (rev b))" by simp
  then show ?thesis ..
qed

text \<open>
  With the suffix that \<^verbatim>\<open>path.extname\<close> gives, \<^verbatim>\<open>path.basename\<close> cuts exactly that
  extension off the last component, or leaves the component as it is when there is none.
\<close>

lemma basename_without_extname:
  "path_basename_ext p (path_extname p) =
     take (length (path_basename p) - length (path_extname p)) (path_basename p)"
proof (cases "path_extname p = []")
  case True
  then show ?thesis by (simp add: path_basename_ext_def Let_def)
next
  case False
  let ?b = "path_basename p"
  let ?e = "rev (takeWhile (\<lambda>c. c \<noteq> CHR ''.'') (rev ?b))"
  from False have dot: "CHR ''.'' \<in> set ?b" and len: "length ?b \<noteq> Suc (length ?e)"
    and ext: "path_extname p = CHR ''.'' # ?e"
    by (auto simp: path_extname_def Let_def split: if_splits)
  from split_last_dot [OF dot] obtain pre where b: "?b = pre @ CHR ''.'' # ?e" by blast
  have l: "length ?b = length pre + Suc (length ?e)"
    using arg_cong [OF b, of length] by simp
  with len have pre: "pre \<noteq> []" by auto
  have "drop (length pre) ?b = CHR ''.'' # ?e"
    using arg_cong [OF b, of "drop (length pre)"] by simp
  with l have ew: "ends_with ?b (path_extname p)" by (simp add: ends_with_def ext)
  from l pre have lt: "length (path_extname p) < length ?b"
    by (cases pre) (simp_all add: ext)
  then have ne: "?b \<noteq> path_extname p" by auto
  from lt length_path_basename [of p] have "length (path_extname p) \<le> length p"
    and "path_extname p \<noteq> p" by auto
  with False ew ne show ?thesis by (simp add: path_basename_ext_def Let_def)
qed

section \<open>The dispatch loop, step by step\<close>

lemma set_entry_fields [simp]:
  "transcriptions (set_entry j e s) = (transcriptions s)(j \<mapsto> e)"
  "transcriptionQueue (set_entry j e s) = transcriptionQueue s"
  "isProcessing (set_entry j e s) = isProcessing s"
  "activeJobs (set_entry j e s) = activeJobs s"
  "procs (set_entry j e s) = procs s"
  "downloads (set_entry j e s) = downloads s"
  "env (set_entry j e s) = env s"
  "spawned (set_entry j e s) = spawned s"
  "dispatched (set_entry j e s) = dispatched s"
  by (simp_all add: set_entry_def)

lemma pending_fields:
  assumes "fst (start_head cfg s) = Pending"
  shows "transcriptionQueue (snd (start_head cfg s)) = tl (transcriptionQueue s)"
    and "dispatched (snd (start_head cfg s)) = dispatched s @ [hd (transcriptionQueue s)]"
    and "activeJobs (snd (start_head cfg s)) = activeJobs s + 1"
    and "isProcessing (snd (start_head cfg s)) = True"
    and "\<exists>p. procs (snd (start_head cfg s)) = procs s @ [p]
             \<and> p_jobId p = jobId (hd (transcriptionQueue s)) \<and> \<not> p_settled p"
    and "downloads (snd (start_head cfg s)) = downloads s"
    and "env (snd (start_head cfg s)) = env s"
    and "transcriptions (snd (start_head cfg s)) = transcriptions s"
  using assms
  by (simp_all add: start_head_def transcribeAudio_def Let_def split: if_splits option.splits)

lemma pass_fields:
  assumes "fst (start_head cfg s) \<noteq> Pending"
  shows "transcriptionQueue (pass cfg s) = tl (transcriptionQueue s)"
    and "dispatched (pass cfg s) = dispatched s @ [hd (transcriptionQueue s)]"
    and "activeJobs (pass cfg s) = activeJobs s"
    and "isProcessing (pass cfg s) = False"
    and "procs (pass cfg s) = procs s"
    and "downloads (pass cfg s) = downloads s"
    and "env (pass cfg s) = env s"
    and "spawned (pass cfg s) = spawned s"
    and "\<exists>a b. transcriptions (pass cfg s) =
            (transcriptions s)(jobId (hd (transcriptionQueue s)) \<mapsto> Error a b)"
  using assms
  by (simp_all add: pass_def start_head_def transcribeAudio_def after_await_def Let_def
      split: if_splits option.splits promise.splits) blast+

lemma processQueue_blocked: "blocked s \<Longrightarrow> processQueue cfg s = s"
  by (subst processQueue.simps) simp

lemma processQueue_pending:
  "\<not> blocked s \<Longrightarrow> fst (start_head cfg s) = Pending \<Longrightarrow>
     processQueue cfg s = snd (start_head cfg s)"
  by (subst processQueue.simps) simp

lemma processQueue_pass:
  "\<not> blocked s \<Longrightarrow> fst (start_head cfg s) \<noteq> Pending \<Longrightarrow>
     processQueue cfg s = processQueue cfg (pass cfg s)"
  by (subst processQueue.simps) (simp add: pass_def)

lemma processQueue_induct [case_names step]:
  assumes "\<And>s. (\<not> blocked s \<Longrightarrow> fst (start_head cfg s) \<noteq> Pending \<Longrightarrow> P (pass cfg s)) \<Longrightarrow> P s"
  shows "P s"
proof -
  have "c = cfg \<longrightarrow> P s" for c
  proof (induction c s rule: processQueue.induct)
    case (1 c s)
    show ?case
    proof
      assume c: "c = cfg"
      show "P s"
      proof (rule assms)
        assume "\<not> blocked s" "fst (start_head cfg s) \<noteq> Pending"
        with 1 c show "P (pass cfg s)" by (simp add: pass_def)
      qed
    qed
  qed
  then show ?thesis by simp
qed

lemma processQueue_other:
  "j \<notin> jobId ` set (transcriptionQueue s) \<Longrightarrow>
     transcriptions (processQueue cfg s) j = transcriptions s j"
proof (induction s rule: processQueue_induct [where cfg = cfg])
  case (step s)
  show ?case
  proof (cases "blocked s")
    case True
    then show ?thesis by (simp add: processQueue_blocked)
  next
    case nb: False
    then obtain x xs where q: "transcriptionQueue s = x # xs"
      by (cases "transcriptionQueue s") (simp_all add: blocked_def)
    show ?thesis
    proof (cases "fst (start_head cfg s) = Pending")
      case True
      with nb show ?thesis by (simp add: processQueue_pending pending_fields)
    next
      case False
      from q step.prems have a: "j \<notin> jobId ` set (transcriptionQueue (pass cfg s))"
        and b: "j \<noteq> jobId (hd (transcriptionQueue s))"
        by (simp_all add: pass_fields(1) [OF False])
      from pass_fields(9) [OF False] b have "transcriptions (pass cfg s) j = transcriptions s j"
        by auto
      with step.IH [OF nb False a] show ?thesis
        by (simp add: processQueue_pass [OF nb False])
    qed
  qed
qed

lemma processQueue_drain:
  "\<exists>k. dispatched (processQueue cfg s) = dispatched s @ take k (transcriptionQueue s)
       \<and> transcriptionQueue (processQueue cfg s) = drop k (transcriptionQueue s)
       \<and> (\<not> blocked s \<longrightarrow> 0 < k)"
proof (induction s rule: processQueue_induct [where cfg = cfg])
  case (step s)
  show ?case
  proof (cases "blocked s")
    case True
    then have "dispatched (processQueue cfg s) = dispatched s @ take 0 (transcriptionQueue s)
       \<and> transcriptionQueue (processQueue cfg s) = drop 0 (transcriptionQueue s)
       \<and> (\<not> blocked s \<longrightarrow> 0 < (0::nat))" by (simp add: processQueue_blocked)
    then show ?thesis by blast
  next
    case nb: False
    then obtain x xs where q: "transcriptionQueue s = x # xs"
      by (cases "transcriptionQueue s") (simp_all add: blocked_def)
    show ?thesis
    proof (cases "fst (start_head cfg s) = Pending")
      case True
      have "processQueue cfg s = snd (start_head cfg s)"
        using nb True by (rule processQueue_pending)
      then have "dispatched (processQueue cfg s) = dispatched s @ take (Suc 0) (transcriptionQueue s)
       \<and> transcriptionQueue (processQueue cfg s) = drop (Suc 0) (transcriptionQueue s)
       \<and> (\<not> blocked s \<longrightarrow> 0 < Suc 0)"
        by (simp add: pending_fields(1,2) [OF True] q)
      then show ?thesis by blast
    next
      case False
      from step.IH [OF nb False] obtain k where
        k: "dispatched (processQueue cfg (pass cfg s)) =
              dispatched (pass cfg s) @ take k (transcriptionQueue (pass cfg s))"
           "transcriptionQueue (processQueue cfg (pass cfg s)) =
              drop k (transcriptionQueue (pass cfg s))"
        by blast
      have pq: "processQueue cfg s = processQueue cfg (pass cfg s)"
        using nb False by (rule processQueue_pass)
      have "dispatched (processQueue cfg s) = dispatched s @ take (Suc k) (transcriptionQueue s)"
        unfolding pq k(1) by (simp add: pass_fields(1,2) [OF False] q)
      moreover have "transcriptionQueue (processQueue cfg s) = drop (Suc k) (transcriptionQueue s)"
        unfolding pq k(2) by (simp add: pass_fields(1,2) [OF False] q)
      ultimately have "dispatched (processQueue cfg s) = dispatched s @ take (Suc k) (transcriptionQueue s)
       \<and> transcriptionQueue (processQueue cfg s) = drop (Suc k) (transcriptionQueue s)
       \<and> (\<not> blocked s \<longrightarrow> 0 < Suc k)" by simp
      then show ?thesis by blast
    qed
  qed
qed

subsection \<open>Lists of processes under update\<close>

lemma filter_update_same:
  "i < length xs \<Longrightarrow> P (xs ! i) \<Longrightarrow> P x \<Longrightarrow> f x = f (xs ! i) \<Longrightarrow>
     map f (filter P (xs[i := x])) = map f (filter P xs)"
proof (induction xs arbitrary: i)
  case Nil
  then show ?case by simp
next
  case (Cons a xs)
  then show ?case by (cases i) simp_all
qed


lemma filter_update_length:
  "i < length xs \<Longrightarrow> P (xs ! i) \<Longrightarrow> \<not> P x \<Longrightarrow>
     length (filter P xs) = Suc (length (filter P (xs[i := x])))"
proof (induction xs arbitrary: i)
  case Nil
  then show ?case by simp
next
  case (Cons a xs)
  then show ?case by (cases i) simp_all
qed

lemma filter_update_flag:
  "i < length xs \<Longrightarrow> P x = P (xs ! i) \<Longrightarrow>
     length (filter P (xs[i := x])) = length (filter P xs)"
proof (induction xs arbitrary: i)
  case Nil
  then show ?case by simp
next
  case (Cons a xs)
  then show ?case by (cases i) simp_all
qed

subsection \<open>The counter and the flag\<close>

lemma balanced_processQueue: "balanced s \<Longrightarrow> balanced (processQueue cfg s)"
proof (induction s rule: processQueue_induct [where cfg = cfg])
  case (step s)
  show ?case
  proof (cases "blocked s")
    case True
    with step.prems show ?thesis by (simp add: processQueue_blocked)
  next
    case nb: False
    then have idle: "\<not> isProcessing s" by (simp add: blocked_def)
    show ?thesis
    proof (cases "fst (start_head cfg s) = Pending")
      case True
      from pending_fields(5) [OF True] obtain p where
        p: "procs (snd (start_head cfg s)) = procs s @ [p]" "\<not> p_settled p" by blast
      from step.prems idle p show ?thesis
        by (simp add: processQueue_pending [OF nb True] balanced_def in_flight_def
            pending_fields(3,4) [OF True])
    next
      case False
      from step.prems idle have "balanced (pass cfg s)"
        by (simp add: balanced_def in_flight_def pass_fields(3,4,5) [OF False])
      with step.IH [OF nb False] show ?thesis
        by (simp add: processQueue_pass [OF nb False])
    qed
  qed
qed

lemma balanced_settle:
  assumes "balanced s" and "i < length (procs s)"
  shows "balanced (settle_proc cfg i p s)"
proof (cases "p_settled (procs s ! i)")
  case True
  with assms show ?thesis by (simp add: settle_proc_def)
next
  case False
  let ?t = "after_await p (p_jobId (procs s ! i))
              (s\<lparr>procs := (procs s)[i := (procs s ! i)\<lparr>p_settled := True\<rparr>]\<rparr>)"
  from assms(2) False
  have len: "length (in_flight s) = Suc (length (filter (\<lambda>p. \<not> p_settled p)
               ((procs s)[i := (procs s ! i)\<lparr>p_settled := True\<rparr>])))"
    unfolding in_flight_def by (intro filter_update_length) simp_all
  with assms(1) have busy: "isProcessing s" and one: "activeJobs s = 1"
    and none: "filter (\<lambda>p. \<not> p_settled p)
               ((procs s)[i := (procs s ! i)\<lparr>p_settled := True\<rparr>]) = []"
    by (auto simp: balanced_def split: if_splits)
  have "balanced ?t"
    using one none by (simp add: balanced_def in_flight_def after_await_def split: promise.split)
  then have "balanced (processQueue cfg ?t)" by (rule balanced_processQueue)
  with False show ?thesis by (simp add: settle_proc_def Let_def)
qed

lemma balanced_entry [simp]:
  "balanced (set_entry j e s) = balanced s"
  "balanced (s\<lparr>transcriptionQueue := q\<rparr>) = balanced s"
  "balanced (s\<lparr>downloads := ds\<rparr>) = balanced s"
  "balanced (s\<lparr>env := w\<rparr>) = balanced s"
  by (simp_all add: balanced_def in_flight_def)

lemma balanced_output:
  assumes "i < length (procs s)"
  shows "balanced (on_stdout i message s) = balanced s"
    and "balanced (on_stderr i message s) = balanced s"
proof -
  have "length (filter (\<lambda>p. \<not> p_settled p) ((procs s)[i := x])) =
        length (filter (\<lambda>p. \<not> p_settled p) (procs s))"
    if "p_settled x = p_settled (procs s ! i)" for x
    using assms that by (intro filter_update_flag) simp_all
  then show "balanced (on_stdout i message s) = balanced s"
    and "balanced (on_stderr i message s) = balanced s"
    by (simp_all add: on_stdout_def on_stderr_def Let_def balanced_def in_flight_def
        del: length_0_conv)
qed

lemma balanced_step: "balanced s \<Longrightarrow> balanced (step cfg e s)"
proof (cases e)
  case (Upload fl m l now)
  assume b: "balanced s"
  show ?thesis
  proof (cases fl)
    case None
    with b Upload show ?thesis by (simp add: transcribe_def)
  next
    case (Some f)
    with b Upload show ?thesis
      by (simp add: transcribe_def Let_def balanced_processQueue)
  qed
next
  case (Youtube url extracted m l info now)
  assume b: "balanced s"
  then show ?thesis unfolding Youtube
    by (simp add: transcribe_youtube_def downloadYoutubeAudio_def Let_def
        split: option.split sum.split promise.split)
next
  case (Stdout i message)
  assume b: "balanced s"
  then show ?thesis unfolding Stdout by (simp add: balanced_output)
next
  case (Stderr i message)
  assume b: "balanced s"
  then show ?thesis unfolding Stderr by (simp add: balanced_output)
next
  case (Close i code now)
  assume b: "balanced s"
  then show ?thesis unfolding Close
    by (simp add: on_close_def Let_def balanced_settle split: option.split)
next
  case (ProcError i msg)
  assume b: "balanced s"
  then show ?thesis unfolding ProcError
    by (simp add: on_error_def balanced_settle)
next
  case (YtdlProgress i downloaded tot)
  assume b: "balanced s"
  then show ?thesis unfolding YtdlProgress by (simp add: on_ytdl_progress_def)
next
  case (FfmpegProgress i percent)
  assume b: "balanced s"
  then show ?thesis unfolding FfmpegProgress
    by (simp add: on_ffmpeg_progress_def split: option.split)
next
  case (FfmpegEnd i)
  assume b: "balanced s"
  then show ?thesis unfolding FfmpegEnd
    by (simp add: on_ffmpeg_end_def Let_def balanced_processQueue)
next
  case (FfmpegError i msg)
  assume b: "balanced s"
  then show ?thesis unfolding FfmpegError
    by (simp add: on_ffmpeg_error_def Let_def)
next
  case (World w)
  assume b: "balanced s"
  then show ?thesis unfolding World by simp
qed

subsection \<open>Runs\<close>

lemma run_Nil [simp]: "run cfg [] s = s"
  by (simp add: run_def)

lemma run_Cons [simp]: "run cfg (e # es) s = run cfg es (step cfg e s)"
  by (simp add: run_def)

lemma run_snoc [simp]: "run cfg (es @ [e]) s = step cfg e (run cfg es s)"
  by (simp add: run_def)

lemma balanced_run: "balanced s \<Longrightarrow> balanced (run cfg es s)"
  by (induction es arbitrary: s) (simp_all add: balanced_step)

lemma balanced_init: "balanced (init w)"
  by (simp add: balanced_def init_def in_flight_def)

lemma processQueue_busy:
  "balanced s \<Longrightarrow>
     isProcessing (processQueue cfg s) \<or> transcriptionQueue (processQueue cfg s) = []"
proof (induction s rule: processQueue_induct [where cfg = cfg])
  case (step s)
  show ?case
  proof (cases "blocked s")
    case True
    with step.prems show ?thesis
      by (auto simp: processQueue_blocked blocked_def balanced_def MAX_CONCURRENT_JOBS_def
          split: if_splits)
  next
    case nb: False
    then have idle: "\<not> isProcessing s" by (simp add: blocked_def)
    show ?thesis
    proof (cases "fst (start_head cfg s) = Pending")
      case True
      then show ?thesis by (simp add: processQueue_pending [OF nb True] pending_fields(4))
    next
      case False
      from step.prems idle have "balanced (pass cfg s)"
        by (simp add: balanced_def in_flight_def pass_fields(3,4,5) [OF False])
      with step.IH [OF nb False] show ?thesis
        by (simp add: processQueue_pass [OF nb False])
    qed
  qed
qed

text \<open>Every handler only appends to the queue and takes from its head.\<close>

lemma processQueue_order:
  "dispatched (processQueue cfg s) @ transcriptionQueue (processQueue cfg s) =
     dispatched s @ transcriptionQueue s"
proof -
  from processQueue_drain [of cfg s] obtain k where
    "dispatched (processQueue cfg s) = dispatched s @ take k (transcriptionQueue s)"
    "transcriptionQueue (processQueue cfg s) = drop k (transcriptionQueue s)"
    by blast
  then show ?thesis by simp
qed

lemma settle_order:
  "dispatched (settle_proc cfg i p s) @ transcriptionQueue (settle_proc cfg i p s) =
     dispatched s @ transcriptionQueue s"
  by (simp add: settle_proc_def Let_def processQueue_order after_await_def
      split: promise.split)

lemma step_order:
  "\<exists>new. dispatched (step cfg e s) @ transcriptionQueue (step cfg e s) =
           dispatched s @ transcriptionQueue s @ new"
proof (cases e)
  case (Upload fl m l now)
  then show ?thesis
    by (cases fl) (simp_all add: transcribe_def Let_def processQueue_order)
next
  case (Youtube url extracted m l info now)
  have "dispatched (step cfg e s) @ transcriptionQueue (step cfg e s) =
        dispatched s @ transcriptionQueue s @ []"
    unfolding Youtube
    by (simp add: transcribe_youtube_def downloadYoutubeAudio_def Let_def
        split: option.split sum.split promise.split)
  then show ?thesis by blast
next
  case (Stdout i message)
  have "dispatched (step cfg e s) @ transcriptionQueue (step cfg e s) =
        dispatched s @ transcriptionQueue s @ []"
    unfolding Stdout by (simp add: on_stdout_def Let_def)
  then show ?thesis by blast
next
  case (Stderr i message)
  have "dispatched (step cfg e s) @ transcriptionQueue (step cfg e s) =
        dispatched s @ transcriptionQueue s @ []"
    unfolding Stderr by (simp add: on_stderr_def Let_def)
  then show ?thesis by blast
next
  case (Close i code now)
  have "dispatched (step cfg e s) @ transcriptionQueue (step cfg e s) =
        dispatched s @ transcriptionQueue s @ []"
    unfolding Close by (simp add: settle_order on_close_def Let_def split: option.split)
  then show ?thesis by blast
next
  case (ProcError i msg)
  have "dispatched (step cfg e s) @ transcriptionQueue (step cfg e s) =
        dispatched s @ transcriptionQueue s @ []"
    unfolding ProcError by (simp add: settle_order on_error_def)
  then show ?thesis by blast
next
  case (YtdlProgress i downloaded tot)
  have "dispatched (step cfg e s) @ transcriptionQueue (step cfg e s) =
        dispatched s @ transcriptionQueue s @ []"
    unfolding YtdlProgress by (simp add: on_ytdl_progress_def)
  then show ?thesis by blast
next
  case (FfmpegProgress i percent)
  have "dispatched (step cfg e s) @ transcriptionQueue (step cfg e s) =
        dispatched s @ transcriptionQueue s @ []"
    unfolding FfmpegProgress by (simp add: on_ffmpeg_progress_def split: option.split)
  then show ?thesis by blast
next
  case (FfmpegEnd i)
  then show ?thesis
    by (simp add: on_ffmpeg_end_def Let_def processQueue_order)
next
  case (FfmpegError i msg)
  have "dispatched (step cfg e s) @ transcriptionQueue (step cfg e s) =
        dispatched s @ transcriptionQueue s @ []"
    unfolding FfmpegError by (simp add: on_ffmpeg_error_def Let_def)
  then show ?thesis by blast
next
  case (World w)
  then show ?thesis by simp
qed

lemma run_order:
  "\<exists>new. dispatched (run cfg es s) @ transcriptionQueue (run cfg es s) =
           dispatched s @ transcriptionQueue s @ new"
proof (induction es arbitrary: s)
  case Nil
  then show ?case by simp
next
  case (Cons e es)
  from Cons.IH [of "step cfg e s"] obtain new where
    a: "dispatched (run cfg (e # es) s) @ transcriptionQueue (run cfg (e # es) s) =
        dispatched (step cfg e s) @ transcriptionQueue (step cfg e s) @ new"
    by auto
  from step_order [of cfg e s] obtain new' where
    b: "dispatched (step cfg e s) @ transcriptionQueue (step cfg e s) =
        dispatched s @ transcriptionQueue s @ new'"
    by blast
  have "dispatched (run cfg (e # es) s) @ transcriptionQueue (run cfg (e # es) s) =
        dispatched s @ transcriptionQueue s @ (new' @ new)"
    using a b by (metis append.assoc)
  then show ?case by blast
qed

lemma processQueue_error:
  "status_of s j = Some ''error'' \<Longrightarrow> status_of (processQueue cfg s) j = Some ''error''"
proof (induction s rule: processQueue_induct [where cfg = cfg])
  case (step s)
  show ?case
  proof (cases "blocked s")
    case True
    with step.prems show ?thesis by (simp add: processQueue_blocked)
  next
    case nb: False
    show ?thesis
    proof (cases "fst (start_head cfg s) = Pending")
      case True
      with step.prems show ?thesis
        by (simp add: processQueue_pending [OF nb True] status_of_def pending_fields(8))
    next
      case False
      from pass_fields(9) [OF False] step.prems
      have "status_of (pass cfg s) j = Some ''error''"
        by (auto simp: status_of_def)
      with step.IH [OF nb False] show ?thesis
        by (simp add: processQueue_pass [OF nb False])
    qed
  qed
qed

lemma close_entry:
  assumes "i < length (procs s)"
    and "p_jobId (procs s ! i) \<notin> jobId ` set (transcriptionQueue s)"
  shows "transcriptions (step cfg (Close i code now) s) (p_jobId (procs s ! i)) =
           (case fst (on_close cfg i code now s) of
              Rejected msg \<Rightarrow>
                if p_settled (procs s ! i)
                then transcriptions (snd (on_close cfg i code now s)) (p_jobId (procs s ! i))
                else Some (Error ''Failed to process file in queue'' (Some msg))
            | _ \<Rightarrow> transcriptions (snd (on_close cfg i code now s)) (p_jobId (procs s ! i)))"
proof -
  have q: "transcriptionQueue (snd (on_close cfg i code now s)) = transcriptionQueue s"
    and pr: "procs (snd (on_close cfg i code now s)) = procs s"
    by (simp_all add: on_close_def Let_def split: option.split)
  show ?thesis
    using assms
    by (simp add: settle_proc_def Let_def pr q processQueue_other after_await_def
        split: promise.split)
qed

subsection \<open>One job and its status\<close>

lemma forward_refl [simp]: "forward a a"
  by (simp add: forward_def split: option.split)














































section \<open>Properties\<close>

subsection \<open>Submission\<close>

text \<open>
  C7. A YouTube submission whose reported duration is above 1800 seconds is refused in
  the request handler itself: the answer is status 400, and the state is the one before
  the request, so no job is registered, nothing is queued and no download is started.
\<close>

theorem too_long_rejected:
  assumes "truthy url" and "duration vd = Some n" and "n > 1800"
  shows "transcribe_youtube cfg (Some url) (Some videoId) m l (Inr vd) now s =
           (Refused 400 ''Video is too long. Maximum duration is 30 minutes.'', s)
         \<and> step cfg (Youtube (Some url) (Some videoId) m l (Inr vd) now) s = s"
  using assms by (simp add: transcribe_youtube_def too_long_def param_default_def Let_def)

theorem too_long_rejected_witness:
  "truthy ''https://youtu.be/abcdefghijk''
   \<and> duration (example_video 3600) = Some 3600 \<and> (3600::int) > 1800
   \<and> transcribe_youtube example_config (Some ''https://youtu.be/abcdefghijk'')
        (Some ''abcdefghijk'') None None (Inr (example_video 3600)) 5 (init example_world) =
        (Refused 400 ''Video is too long. Maximum duration is 30 minutes.'', init example_world)
   \<and> step example_config (Youtube (Some ''https://youtu.be/abcdefghijk'')
        (Some ''abcdefghijk'') None None (Inr (example_video 3600)) 5) (init example_world) =
        init example_world"
proof -
  have a: "truthy ''https://youtu.be/abcdefghijk''" by (simp add: truthy_def)
  have b: "duration (example_video 3600) = Some 3600" by (simp add: example_video_def)
  have c: "(3600::int) > 1800" by simp
  show ?thesis using a b c too_long_rejected [OF a b c] by simp
qed

text \<open>
  C4. The job id is the clock reading of the request. Two uploads handled at the same
  clock reading 5 get the same id, and the second one overwrites the registry entry of
  the first: both dispatch records carry the id \<open>5\<close>.
\<close>

theorem job_id_collision:
  "fst (transcribe example_config (Some upload_a) None None 5 (init example_world)) = Accepted ''5''
   \<and> fst (transcribe example_config (Some upload_b) None None 5
            (step example_config (Upload (Some upload_a) None None 5) (init example_world))) =
       Accepted ''5''
   \<and> map jobId
        (dispatched (run example_config [Upload (Some upload_a) None None 5,
                                         Upload (Some upload_b) None None 5] (init example_world))
         @ transcriptionQueue (run example_config [Upload (Some upload_a) None None 5,
                                         Upload (Some upload_b) None None 5] (init example_world))) =
       [''5'', ''5'']
   \<and> transcriptions (run example_config [Upload (Some upload_a) None None 5,
                                         Upload (Some upload_b) None None 5] (init example_world)) ''5'' =
       Some (Started ''b.mp3'' 20 ''medium'' ''en'' 5)"
  by (simp add: eval_defs example_defs)

subsection \<open>Bounded dispatch\<close>

text \<open>
  C3 (as amended). In every state that a sequence of events leads to, the number of engine
  invocations in flight equals \<^verbatim>\<open>activeJobs\<close> and is at most \<^verbatim>\<open>MAX_CONCURRENT_JOBS\<close>.
  The bound is on dispatched invocations, not on the registry status \<open>processing\<close>,
  which a YouTube job carries from the start of its download.
\<close>

theorem bounded_dispatch:
  "int (length (in_flight (run cfg es (init w)))) = activeJobs (run cfg es (init w))
   \<and> activeJobs (run cfg es (init w)) \<le> MAX_CONCURRENT_JOBS"
  using balanced_run [OF balanced_init, of cfg es w]
  by (simp add: balanced_def MAX_CONCURRENT_JOBS_def)

theorem bounded_dispatch_witness:
  "int (length (in_flight (run example_config
       [Upload (Some upload_a) None None 1, Upload (Some upload_b) None None 2]
       (init example_world)))) = 1
   \<and> activeJobs (run example_config
       [Upload (Some upload_a) None None 1, Upload (Some upload_b) None None 2]
       (init example_world)) = 1"
  using bounded_dispatch [of example_config
       "[Upload (Some upload_a) None None 1, Upload (Some upload_b) None None 2]" example_world]
  by (simp add: eval_defs example_defs in_flight_def)

text \<open>
  C3 as stated fails: while the upload job \<open>1\<close> is being transcribed (it has written
  progress to its standard output), the YouTube job \<open>2\<close> is accepted and its download
  marks it \<open>processing\<close> as well, so two jobs are in that status against a limit of one.
\<close>

theorem processing_counterexample:
  "\<not> int (processing_among
           (run example_config
              [Upload (Some upload_a) None None 1,
               Stdout 0 ''10%'',
               Youtube (Some ''https://youtu.be/abcdefghijk'') (Some ''abcdefghijk'') None None
                 (Inr (example_video 60)) 2]
              (init example_world))
           [''1'', ''2''])
       \<le> MAX_CONCURRENT_JOBS"
  by (simp add: processing_among_def eval_defs example_defs progressMatch_def is_digit_def)

subsection \<open>Order of dispatch\<close>

text \<open>
  C6. Dispatch follows the order of the queue. Take a state \<open>s\<close> and two records at
  positions \<open>i < j\<close> of its queue. After any further events, if the later record has been
  dispatched, then both have been, the earlier one in an earlier slot: they are the
  dispatches number \<open>length (dispatched s) + i\<close> and \<open>length (dispatched s) + j\<close>.
\<close>

theorem fifo_dispatch:
  assumes "i < j" and "j < length (transcriptionQueue s)"
    and "length (dispatched s) + j < length (dispatched (run cfg es s))"
  shows "dispatched (run cfg es s) ! (length (dispatched s) + i) = transcriptionQueue s ! i
         \<and> dispatched (run cfg es s) ! (length (dispatched s) + j) = transcriptionQueue s ! j"
proof -
  from run_order [of cfg es s] obtain new where
    eq: "dispatched (run cfg es s) @ transcriptionQueue (run cfg es s) =
         dispatched s @ transcriptionQueue s @ new"
    by blast
  have "dispatched (run cfg es s) ! (length (dispatched s) + k) = transcriptionQueue s ! k"
    if "k \<le> j" for k
  proof -
    from that assms(3) have lt: "length (dispatched s) + k < length (dispatched (run cfg es s))"
      by simp
    from that assms(2) have kq: "k < length (transcriptionQueue s)" by simp
    have "dispatched (run cfg es s) ! (length (dispatched s) + k) =
          (dispatched (run cfg es s) @ transcriptionQueue (run cfg es s)) ! (length (dispatched s) + k)"
      using lt by (simp add: nth_append)
    also have "\<dots> = (dispatched s @ transcriptionQueue s @ new) ! (length (dispatched s) + k)"
      by (simp only: eq)
    also have "\<dots> = transcriptionQueue s ! k"
      using kq by (simp add: nth_append)
    finally show ?thesis .
  qed
  from this [of i] this [of j] assms(1) show ?thesis by simp
qed

theorem fifo_dispatch_witness:
  "(0::nat) < 1
   \<and> 1 < length (transcriptionQueue
         (run example_config [Upload (Some upload_a) None None 1,
            Upload (Some upload_b) None None 2, Upload (Some upload_a) None None 3]
            (init example_world)))
   \<and> dispatched (run example_config [Close 0 (Some 1) 4, Close 1 None 5]
         (run example_config [Upload (Some upload_a) None None 1,
            Upload (Some upload_b) None None 2, Upload (Some upload_a) None None 3]
            (init example_world))) ! 1 =
       \<lparr>filePath = ''/up/2-b.mp3'', jobId = ''2'', model = ''medium'', language = ''en''\<rparr>
   \<and> dispatched (run example_config [Close 0 (Some 1) 4, Close 1 None 5]
         (run example_config [Upload (Some upload_a) None None 1,
            Upload (Some upload_b) None None 2, Upload (Some upload_a) None None 3]
            (init example_world))) ! 2 =
       \<lparr>filePath = ''/up/1-a.mp3'', jobId = ''3'', model = ''medium'', language = ''en''\<rparr>"
proof -
  let ?s = "run example_config [Upload (Some upload_a) None None 1,
            Upload (Some upload_b) None None 2, Upload (Some upload_a) None None 3]
            (init example_world)"
  let ?es = "[Close 0 (Some 1) 4, Close 1 None 5]"
  have a: "(0::nat) < 1" by simp
  have b: "1 < length (transcriptionQueue ?s)"
    by (simp add: eval_defs example_defs)
  have c: "length (dispatched ?s) + 1 < length (dispatched (run example_config ?es ?s))"
    by (simp add: eval_defs example_defs)
  from fifo_dispatch [OF a b c] show ?thesis
    by (simp add: eval_defs example_defs)
qed

subsection \<open>The transcript decides\<close>

text \<open>
  C1. When the process closes and the transcript file exists, the \<^verbatim>\<open>close\<close> handler
  resolves and records the job as \<open>completed\<close> with the contents of the file, whatever
  the exit code \<open>code\<close> is (a number or null). After the whole event the entry is
  still that one, as long as no queued record carries the same job id. The legacy handler
  does the same.
\<close>

theorem artifact_priority:
  assumes "i < length (procs s)"
    and "files (env s) (txtFile_of cfg (p_inputPath (procs s ! i))) = Some t"
    and "files w (legacy_txtFile inputPath) = Some t'"
  shows "fst (on_close cfg i code now s) = Resolved
     \<and> status_of (snd (on_close cfg i code now s)) (p_jobId (procs s ! i)) = Some ''completed''
     \<and> Option.bind (transcriptions (snd (on_close cfg i code now s)) (p_jobId (procs s ! i)))
          transcript = Some t
     \<and> (p_jobId (procs s ! i) \<notin> jobId ` set (transcriptionQueue s) \<longrightarrow>
          status_of (step cfg (Close i code now) s) (p_jobId (procs s ! i)) = Some ''completed''
          \<and> Option.bind (transcriptions (step cfg (Close i code now) s) (p_jobId (procs s ! i)))
               transcript = Some t)
     \<and> legacy_on_close w inputPath j reg = (LSettled Resolved, reg(j \<mapsto> LCompleted t'))"
proof -
  have h: "fst (on_close cfg i code now s) = Resolved"
    and e: "\<exists>sg m l f x y c. transcriptions (snd (on_close cfg i code now s)) (p_jobId (procs s ! i)) =
           Some (Completed t sg m l f x y c)"
    using assms(2) by (simp_all add: on_close_def Let_def)
  from e obtain sg m l f x y c where
    c: "transcriptions (snd (on_close cfg i code now s)) (p_jobId (procs s ! i)) =
           Some (Completed t sg m l f x y c)" by blast
  have "transcriptions (step cfg (Close i code now) s) (p_jobId (procs s ! i)) =
          Some (Completed t sg m l f x y c)"
    if "p_jobId (procs s ! i) \<notin> jobId ` set (transcriptionQueue s)"
    using close_entry [OF assms(1) that, of cfg code now] h c by simp
  moreover have "legacy_on_close w inputPath j reg = (LSettled Resolved, reg(j \<mapsto> LCompleted t'))"
    using assms(3) by (simp add: legacy_on_close_def)
  ultimately show ?thesis using h c by (simp add: status_of_def)
qed

theorem artifact_priority_witness:
  "0 < length (procs (run example_config [Upload (Some upload_a) None None 1, World done_world]
                       (init example_world)))
   \<and> files (env (run example_config [Upload (Some upload_a) None None 1, World done_world]
                       (init example_world)))
        (txtFile_of example_config ''/up/1-a.mp3'') = Some ''hello world''
   \<and> files done_world (legacy_txtFile ''/var/www/whisper-app/backend/uploads/1-a.mp3'') =
        Some ''hello world''
   \<and> status_of (step example_config (Close 0 (Some 1) 9)
         (run example_config [Upload (Some upload_a) None None 1, World done_world]
            (init example_world))) ''1'' = Some ''completed''
   \<and> Option.bind (transcriptions (step example_config (Close 0 (Some 1) 9)
         (run example_config [Upload (Some upload_a) None None 1, World done_world]
            (init example_world))) ''1'') transcript = Some ''hello world''
   \<and> legacy_on_close done_world ''/var/www/whisper-app/backend/uploads/1-a.mp3'' ''1''
         [''1'' \<mapsto> LStarted] =
       (LSettled Resolved, [''1'' \<mapsto> LCompleted ''hello world''])"
proof -
  let ?s = "run example_config [Upload (Some upload_a) None None 1, World done_world]
              (init example_world)"
  have a: "0 < length (procs ?s)" by (simp add: eval_defs example_defs)
  have b: "files (env ?s) (txtFile_of example_config (p_inputPath (procs ?s ! 0))) =
             Some ''hello world''"
    by (simp add: eval_defs example_defs)
  have c: "files done_world (legacy_txtFile ''/var/www/whisper-app/backend/uploads/1-a.mp3'') =
             Some ''hello world''"
    by (simp add: eval_defs example_defs legacy_txtFile_def legacy_UPLOAD_DIR_def)
  from artifact_priority [OF a b c, of "Some 1" 9 "''1''" "[''1'' \<mapsto> LStarted]"]
  show ?thesis
    by (simp add: eval_defs example_defs legacy_txtFile_def legacy_UPLOAD_DIR_def)
qed

text \<open>
  C10. When the transcript file exists and the segments file is absent or is not JSON
  (\<^verbatim>\<open>JSON.parse\<close> throws), the job is still recorded as \<open>completed\<close>, with the transcript
  and the empty list of segments.
\<close>

theorem segments_optional:
  assumes "i < length (procs s)"
    and "files (env s) (txtFile_of cfg (p_inputPath (procs s ! i))) = Some t"
    and "Option.bind (files (env s) (jsonFile_of cfg (p_inputPath (procs s ! i)))) (JSON_parse cfg)
           = None"
  shows "fst (on_close cfg i code now s) = Resolved
     \<and> status_of (snd (on_close cfg i code now s)) (p_jobId (procs s ! i)) = Some ''completed''
     \<and> Option.bind (transcriptions (snd (on_close cfg i code now s)) (p_jobId (procs s ! i)))
          transcript = Some t
     \<and> Option.bind (transcriptions (snd (on_close cfg i code now s)) (p_jobId (procs s ! i)))
          segments = Some (JArr [])
     \<and> (p_jobId (procs s ! i) \<notin> jobId ` set (transcriptionQueue s) \<longrightarrow>
          status_of (step cfg (Close i code now) s) (p_jobId (procs s ! i)) = Some ''completed''
          \<and> Option.bind (transcriptions (step cfg (Close i code now) s) (p_jobId (procs s ! i)))
               transcript = Some t
          \<and> Option.bind (transcriptions (step cfg (Close i code now) s) (p_jobId (procs s ! i)))
               segments = Some (JArr []))"
proof -
  have sg: "read_segments cfg (env s) (jsonFile_of cfg (p_inputPath (procs s ! i))) = JArr []"
    using assms(3)
    by (cases "files (env s) (jsonFile_of cfg (p_inputPath (procs s ! i)))")
       (simp_all add: read_segments_def segments_of_def)
  have h: "fst (on_close cfg i code now s) = Resolved"
    and e: "\<exists>m l f x y c. transcriptions (snd (on_close cfg i code now s)) (p_jobId (procs s ! i)) =
           Some (Completed t (JArr []) m l f x y c)"
    using assms(2) sg by (simp_all add: on_close_def Let_def)
  from e obtain m l f x y c where
    c: "transcriptions (snd (on_close cfg i code now s)) (p_jobId (procs s ! i)) =
           Some (Completed t (JArr []) m l f x y c)" by blast
  have "transcriptions (step cfg (Close i code now) s) (p_jobId (procs s ! i)) =
          Some (Completed t (JArr []) m l f x y c)"
    if "p_jobId (procs s ! i) \<notin> jobId ` set (transcriptionQueue s)"
    using close_entry [OF assms(1) that, of cfg code now] h c by simp
  then show ?thesis using h c by (simp add: status_of_def)
qed

theorem segments_optional_witness:
  "0 < length (procs (run example_config [Upload (Some upload_a) None None 1, World done_world]
                       (init example_world)))
   \<and> files done_world (txtFile_of example_config ''/up/1-a.mp3'') = Some ''hello world''
   \<and> files done_world (jsonFile_of example_config ''/up/1-a.mp3'') = Some ''{broken''
   \<and> JSON_parse example_config ''{broken'' = None
   \<and> transcriptions (step example_config (Close 0 None 9)
         (run example_config [Upload (Some upload_a) None None 1, World done_world]
            (init example_world))) ''1'' =
       Some (Completed ''hello world'' (JArr []) ''medium'' ''en'' ''1-a.mp3'' ''1-a.txt''
               (Some ''1-a.json'') 9)"
proof -
  let ?s = "run example_config [Upload (Some upload_a) None None 1, World done_world]
              (init example_world)"
  have a: "0 < length (procs ?s)" by (simp add: eval_defs example_defs)
  have b: "files (env ?s) (txtFile_of example_config (p_inputPath (procs ?s ! 0))) =
             Some ''hello world''"
    by (simp add: eval_defs example_defs)
  have c: "Option.bind (files (env ?s) (jsonFile_of example_config (p_inputPath (procs ?s ! 0))))
             (JSON_parse example_config) = None"
    by (simp add: eval_defs example_defs)
  from segments_optional [OF a b c, of None 9]
  show ?thesis
    by (simp add: eval_defs example_defs)
qed

subsection \<open>No transcript\<close>

lemma settle_error:
  assumes "i < length (procs s)" and "status_of s (p_jobId (procs s ! i)) = Some ''error''"
  shows "status_of (settle_proc cfg i (Rejected msg) s) (p_jobId (procs s ! i)) = Some ''error''"
proof (cases "p_settled (procs s ! i)")
  case True
  with assms show ?thesis by (simp add: settle_proc_def)
next
  case False
  let ?t = "after_await (Rejected msg) (p_jobId (procs s ! i))
              (s\<lparr>procs := (procs s)[i := (procs s ! i)\<lparr>p_settled := True\<rparr>]\<rparr>)"
  have "status_of ?t (p_jobId (procs s ! i)) = Some ''error''"
    by (simp add: after_await_def status_of_def)
  then have "status_of (processQueue cfg ?t) (p_jobId (procs s ! i)) = Some ''error''"
    by (rule processQueue_error)
  with False show ?thesis by (simp add: settle_proc_def Let_def)
qed

text \<open>
  C2 as stated fails on the current revision: the job \<open>1\<close> writes \<open>boom\<close> to its standard
  error and exits without a transcript. The only engine invocation of the whole run is
  the first spawn, there is no second attempt, and the job is left as failed.
\<close>

theorem no_fallback_counterexample:
  "spawned (run example_config
              [Upload (Some upload_a) None None 1, Stderr 0 ''boom'', Close 0 (Some 1) 2]
              (init example_world)) =
     [(''whisper'', [''/up/1-a.mp3'', ''--model'', ''medium'', ''--output_dir'', ''/up'',
                     ''--device'', ''cpu'', ''--threads'', ''2'', ''--language'', ''en''])]
   \<and> transcriptions (run example_config
              [Upload (Some upload_a) None None 1, Stderr 0 ''boom'', Close 0 (Some 1) 2]
              (init example_world)) ''1'' =
     Some (Error ''Failed to process file in queue'' (Some ''Transcription file not found''))"
  by (simp add: eval_defs example_defs)

text \<open>
  C2 (as amended). When the process closes and there is no transcript file:
  the current \<^verbatim>\<open>close\<close> handler starts nothing, records the job as failed with the captured
  standard error as details (a fixed text when there is none) and rejects; after the
  event the job is in status \<open>error\<close>, and with an empty queue no engine invocation has
  been added. The legacy handler runs the fallback command once through \<^verbatim>\<open>exec\<close>: when
  \<^verbatim>\<open>exec\<close> reports an error the job fails with that message, otherwise the transcript is
  looked for again and the job is completed or failed by what is found.
\<close>

theorem no_artifact_failure:
  assumes "i < length (procs s)"
    and "files (env s) (txtFile_of cfg (p_inputPath (procs s ! i))) = None"
    and "files w (legacy_txtFile inputPath) = None"
  shows "on_close cfg i code now s =
           (Rejected ''Transcription file not found'',
            set_entry (p_jobId (procs s ! i))
              (Error ''Failed to generate transcription output''
                 (Some (if p_errorOutput (procs s ! i) \<noteq> [] then p_errorOutput (procs s ! i)
                        else ''Unknown error during transcription process''))) s)
     \<and> status_of (step cfg (Close i code now) s) (p_jobId (procs s ! i)) = Some ''error''
     \<and> (transcriptionQueue s = [] \<longrightarrow> spawned (step cfg (Close i code now) s) = spawned s)
     \<and> legacy_exit w err w' inputPath j reg =
         ([legacy_command inputPath],
          case err of
            Some msg \<Rightarrow> (Rejected msg, reg(j \<mapsto> LError ''Failed to transcribe audio'' (Some msg)))
          | None \<Rightarrow>
              (case files w' (legacy_txtFile inputPath) of
                 Some t \<Rightarrow> (Resolved, reg(j \<mapsto> LCompleted t))
               | None \<Rightarrow>
                   (Rejected ''Transcription file not found after direct command'',
                    reg(j \<mapsto> LError ''Transcription file not found after direct command'' None))))"
proof -
  let ?j = "p_jobId (procs s ! i)"
  let ?t = "set_entry ?j
              (Error ''Failed to generate transcription output''
                 (Some (if p_errorOutput (procs s ! i) \<noteq> [] then p_errorOutput (procs s ! i)
                        else ''Unknown error during transcription process''))) s"
  have oc: "on_close cfg i code now s = (Rejected ''Transcription file not found'', ?t)"
    using assms(2) by (simp add: on_close_def Let_def truthy_def)
  have st: "status_of ?t (p_jobId (procs ?t ! i)) = Some ''error''" and len: "i < length (procs ?t)"
    using assms(1) by (simp_all add: status_of_def)
  have "status_of (settle_proc cfg i (Rejected ''Transcription file not found'') ?t)
          (p_jobId (procs ?t ! i)) = Some ''error''"
    using len st by (rule settle_error)
  then have a: "status_of (step cfg (Close i code now) s) ?j = Some ''error''"
    using assms(1) by (simp add: oc)
  have b: "spawned (step cfg (Close i code now) s) = spawned s" if "transcriptionQueue s = []"
    using assms(1) that
    by (simp add: oc settle_proc_def Let_def processQueue_blocked blocked_def after_await_def)
  have c: "legacy_exit w err w' inputPath j reg =
         ([legacy_command inputPath],
          case err of
            Some msg \<Rightarrow> (Rejected msg, reg(j \<mapsto> LError ''Failed to transcribe audio'' (Some msg)))
          | None \<Rightarrow>
              (case files w' (legacy_txtFile inputPath) of
                 Some t \<Rightarrow> (Resolved, reg(j \<mapsto> LCompleted t))
               | None \<Rightarrow>
                   (Rejected ''Transcription file not found after direct command'',
                    reg(j \<mapsto> LError ''Transcription file not found after direct command'' None))))"
    using assms(3)
    by (simp add: legacy_exit_def legacy_on_close_def legacy_on_exec_def path_resolve_def
        split: option.split)
  from oc a b c show ?thesis by simp
qed

theorem no_artifact_failure_witness:
  "0 < length (procs (run example_config [Upload (Some upload_a) None None 1, Stderr 0 ''boom'']
                       (init example_world)))
   \<and> files example_world (txtFile_of example_config ''/up/1-a.mp3'') = None
   \<and> files example_world (legacy_txtFile ''/up/1-a.mp3'') = None
   \<and> fst (on_close example_config 0 (Some 1) 2
         (run example_config [Upload (Some upload_a) None None 1, Stderr 0 ''boom'']
            (init example_world))) = Rejected ''Transcription file not found''
   \<and> transcriptions (snd (on_close example_config 0 (Some 1) 2
         (run example_config [Upload (Some upload_a) None None 1, Stderr 0 ''boom'']
            (init example_world)))) ''1'' =
       Some (Error ''Failed to generate transcription output'' (Some ''boom''))
   \<and> status_of (step example_config (Close 0 (Some 1) 2)
         (run example_config [Upload (Some upload_a) None None 1, Stderr 0 ''boom'']
            (init example_world))) ''1'' = Some ''error''
   \<and> legacy_exit example_world None done_world ''/var/www/whisper-app/backend/uploads/1-a.mp3''
         ''1'' [''1'' \<mapsto> LStarted] =
       ([legacy_command ''/var/www/whisper-app/backend/uploads/1-a.mp3''], Resolved,
        [''1'' \<mapsto> LCompleted ''hello world''])"
proof -
  let ?s = "run example_config [Upload (Some upload_a) None None 1, Stderr 0 ''boom'']
              (init example_world)"
  have a: "0 < length (procs ?s)" by (simp add: eval_defs example_defs)
  have b: "files (env ?s) (txtFile_of example_config (p_inputPath (procs ?s ! 0))) = None"
    by (simp add: eval_defs example_defs)
  have c: "files example_world (legacy_txtFile ''/var/www/whisper-app/backend/uploads/1-a.mp3'') = None"
    by (simp add: eval_defs example_defs legacy_txtFile_def legacy_UPLOAD_DIR_def)
  from no_artifact_failure [OF a b c, of "Some 1" 2 None done_world "''1''" "[''1'' \<mapsto> LStarted]"]
  show ?thesis
    by (simp add: eval_defs example_defs legacy_txtFile_def legacy_UPLOAD_DIR_def)
qed

subsection \<open>Model and language\<close>

text \<open>
  C8 as stated fails for the language: \<open>xx\<close> is not in the list of languages the server
  publishes, and the engine is started with \<^verbatim>\<open>--language xx\<close>.
\<close>

theorem language_passthrough_counterexample:
  "''xx'' \<notin> fst ` set LANGUAGES
   \<and> spawned (run example_config [Upload (Some upload_a) None (Some ''xx'') 1]
                (init example_world)) =
       [(''whisper'', [''/up/1-a.mp3'', ''--model'', ''medium'', ''--output_dir'', ''/up'',
                       ''--device'', ''cpu'', ''--threads'', ''2'', ''--language'', ''xx''])]"
  by (simp add: eval_defs example_defs LANGUAGES_def)

text \<open>
  C8 (as amended). A dispatched job whose input file exists starts the engine once, with
  the requested model when it is one of the five known ones and with \<open>medium\<close>
  otherwise. The language flag is left out exactly when the language is empty or
  \<open>auto\<close>; any other language, published or not, is passed on as it is.
\<close>

theorem model_language_selection:
  assumes "transcriptionQueue s = e # q" and "existsSync (env s) (filePath e)"
    and "spawn_fault (env s) = None"
  shows "spawned (snd (start_head cfg s)) =
           spawned s @
             [whisper_command cfg (filePath e)
                (if model e \<in> {''tiny'', ''base'', ''small'', ''medium'', ''large''}
                 then model e else ''medium'')
                (language e)]
     \<and> snd (whisper_command cfg a vm l) =
         (if USE_FASTER_WHISPER cfg
          then [''--model'', vm, ''--output_dir'', UPLOAD_DIR cfg, ''--output_format'', ''all'',
                ''--threads'', or_default (WHISPER_THREADS cfg) ''4'', ''--beam_size'', ''5'',
                ''--best_of'', ''5'', ''--temperature'', ''0'']
               @ (if l = [] \<or> l = ''auto'' then [] else [''--language'', l]) @ [a]
          else [a, ''--model'', vm, ''--output_dir'', UPLOAD_DIR cfg, ''--device'', ''cpu'',
                ''--threads'', or_default (WHISPER_THREADS cfg) ''2'']
               @ (if l = [] \<or> l = ''auto'' then [] else [''--language'', l]))"
proof -
  have vm: "validModel_of m =
          (if m \<in> {''tiny'', ''base'', ''small'', ''medium'', ''large''} then m else ''medium'')"
    for m
    by (simp add: validModel_of_def AVAILABLE_MODELS_def)
  have "spawned (snd (start_head cfg s)) =
          spawned s @ [whisper_command cfg (filePath e) (validModel_of (model e)) (language e)]"
    using assms
    by (simp add: start_head_def transcribeAudio_def Let_def path_resolve_def)
  then show ?thesis
    by (simp only: vm) (simp add: whisper_command_def language_args_def truthy_def)
qed

theorem model_language_selection_witness:
  "existsSync example_world ''/up/1-a.mp3'' \<and> spawn_fault example_world = None
   \<and> spawned (snd (start_head example_config
        ((init example_world)\<lparr>transcriptionQueue :=
            [\<lparr>filePath = ''/up/1-a.mp3'', jobId = ''1'', model = ''huge'',
              language = ''auto''\<rparr>]\<rparr>))) =
       [(''whisper'', [''/up/1-a.mp3'', ''--model'', ''medium'', ''--output_dir'', ''/up'',
                       ''--device'', ''cpu'', ''--threads'', ''2''])]"
proof -
  let ?e = "\<lparr>filePath = ''/up/1-a.mp3'', jobId = ''1'', model = ''huge'', language = ''auto''\<rparr>"
  let ?s = "(init example_world)\<lparr>transcriptionQueue := [?e]\<rparr>"
  have a: "transcriptionQueue ?s = ?e # []" by simp
  have b: "existsSync (env ?s) (filePath ?e)" by (simp add: eval_defs example_defs)
  have c: "spawn_fault (env ?s) = None" by (simp add: eval_defs example_defs)
  from model_language_selection [OF a b c, of example_config "''/up/1-a.mp3''" "''medium''" "''auto''"]
  show ?thesis
    by (simp add: eval_defs example_defs)
qed

subsection \<open>A failed job does not stop the queue\<close>

text \<open>
  C9. Let \<open>s\<close> be a state that some sequence of events leads to, and let the promise of
  process \<open>i\<close> be open. When the adapter rejects it (the process reports an error, or
  it closes and there is no transcript), the \<^verbatim>\<open>catch\<close> of \<^verbatim>\<open>processQueue\<close> records the job as
  failed with the message \<^verbatim>\<open>Failed to process file in queue\<close> and the adapter's message as details, and the loop
  goes on in the same event: it takes records from the head of the queue until one is
  in flight or the queue is empty, at least one when the queue is not empty. The same
  holds when \<^verbatim>\<open>spawn\<close> throws while a record is dispatched: the record is marked failed and
  the loop goes on with the rest of the queue.
\<close>

theorem failure_does_not_halt:
  assumes "s = run cfg es (init w)" and "i < length (procs s)" and "\<not> p_settled (procs s ! i)"
    and "e = ProcError i msg \<and> why = msg
         \<or> e = Close i code now \<and> why = ''Transcription file not found''
            \<and> files (env s) (txtFile_of cfg (p_inputPath (procs s ! i))) = None"
  shows "status_of (step cfg e s) (p_jobId (procs s ! i)) = Some ''error''
     \<and> (p_jobId (procs s ! i) \<notin> jobId ` set (transcriptionQueue s) \<longrightarrow>
          transcriptions (step cfg e s) (p_jobId (procs s ! i)) =
            Some (Error ''Failed to process file in queue'' (Some why)))
     \<and> (\<exists>k. dispatched (step cfg e s) = dispatched s @ take k (transcriptionQueue s)
            \<and> transcriptionQueue (step cfg e s) = drop k (transcriptionQueue s)
            \<and> (transcriptionQueue s \<noteq> [] \<longrightarrow> 0 < k))
     \<and> (isProcessing (step cfg e s) \<or> transcriptionQueue (step cfg e s) = [])
     \<and> (\<not> blocked t \<and> fst (start_head cfg t) = Rejected msg' \<longrightarrow>
          processQueue cfg t = processQueue cfg (pass cfg t)
          \<and> transcriptions (pass cfg t) (jobId (hd (transcriptionQueue t))) =
              Some (Error ''Failed to process file in queue'' (Some msg'))
          \<and> transcriptionQueue (pass cfg t) = tl (transcriptionQueue t)
          \<and> \<not> isProcessing (pass cfg t) \<and> activeJobs (pass cfg t) = activeJobs t)"
proof -
  let ?j = "p_jobId (procs s ! i)"
  have bal: "balanced s" unfolding assms(1) by (rule balanced_run [OF balanced_init])
  from assms(4) obtain s1 where
    st: "step cfg e s = settle_proc cfg i (Rejected why) s1"
    and s1: "procs s1 = procs s" "transcriptionQueue s1 = transcriptionQueue s"
      "dispatched s1 = dispatched s" "isProcessing s1 = isProcessing s"
      "activeJobs s1 = activeJobs s"
  proof
    assume "e = ProcError i msg \<and> why = msg"
    then show ?thesis
      using assms(2) by (intro that [of "snd (on_error i msg s)"]) (simp_all add: on_error_def)
  next
    assume "e = Close i code now \<and> why = ''Transcription file not found''
            \<and> files (env s) (txtFile_of cfg (p_inputPath (procs s ! i))) = None"
    then show ?thesis
      using assms(2)
      by (intro that [of "snd (on_close cfg i code now s)"]) (simp_all add: on_close_def Let_def)
  qed
  let ?t = "after_await (Rejected why) ?j
              (s1\<lparr>procs := (procs s)[i := (procs s ! i)\<lparr>p_settled := True\<rparr>]\<rparr>)"
  have step_eq: "step cfg e s = processQueue cfg ?t"
    using assms(3) by (simp add: st settle_proc_def Let_def s1)
  have tq: "transcriptionQueue ?t = transcriptionQueue s" "dispatched ?t = dispatched s"
    by (simp_all add: after_await_def s1)
  have len: "length (in_flight s) = Suc (length (filter (\<lambda>p. \<not> p_settled p)
               ((procs s)[i := (procs s ! i)\<lparr>p_settled := True\<rparr>])))"
    unfolding in_flight_def using assms(2,3) by (intro filter_update_length) simp_all
  with bal have busy: "isProcessing s" and one: "activeJobs s = 1"
    and none: "filter (\<lambda>p. \<not> p_settled p)
               ((procs s)[i := (procs s ! i)\<lparr>p_settled := True\<rparr>]) = []"
    by (auto simp: balanced_def split: if_splits)
  have balt: "balanced ?t"
    using one none by (simp add: balanced_def in_flight_def after_await_def s1)
  have free: "transcriptionQueue s \<noteq> [] \<longrightarrow> \<not> blocked ?t"
    using one by (simp add: blocked_def after_await_def s1 MAX_CONCURRENT_JOBS_def)
  have "status_of ?t ?j = Some ''error''"
    by (simp add: after_await_def status_of_def)
  then have a: "status_of (step cfg e s) ?j = Some ''error''"
    unfolding step_eq by (rule processQueue_error)
  have b: "transcriptions (step cfg e s) ?j =
            Some (Error ''Failed to process file in queue'' (Some why))"
    if "?j \<notin> jobId ` set (transcriptionQueue s)"
    using that unfolding step_eq
    by (subst processQueue_other) (simp_all add: tq, simp add: after_await_def)
  from processQueue_drain [of cfg ?t] free
  have c: "\<exists>k. dispatched (step cfg e s) = dispatched s @ take k (transcriptionQueue s)
            \<and> transcriptionQueue (step cfg e s) = drop k (transcriptionQueue s)
            \<and> (transcriptionQueue s \<noteq> [] \<longrightarrow> 0 < k)"
    unfolding step_eq tq by blast
  have d: "isProcessing (step cfg e s) \<or> transcriptionQueue (step cfg e s) = []"
    unfolding step_eq using balt by (rule processQueue_busy)
  have f: "processQueue cfg t = processQueue cfg (pass cfg t)
          \<and> transcriptions (pass cfg t) (jobId (hd (transcriptionQueue t))) =
              Some (Error ''Failed to process file in queue'' (Some msg'))
          \<and> transcriptionQueue (pass cfg t) = tl (transcriptionQueue t)
          \<and> \<not> isProcessing (pass cfg t) \<and> activeJobs (pass cfg t) = activeJobs t"
    if "\<not> blocked t" "fst (start_head cfg t) = Rejected msg'"
  proof -
    from that(2) have np: "fst (start_head cfg t) \<noteq> Pending" by simp
    have "transcriptions (pass cfg t) (jobId (hd (transcriptionQueue t))) =
              Some (Error ''Failed to process file in queue'' (Some msg'))"
      using that(2) by (simp add: pass_def after_await_def)
    with processQueue_pass [OF that(1) np] pass_fields(1,3,4) [OF np] show ?thesis by simp
  qed
  from a b c d f show ?thesis by blast
qed

theorem failure_does_not_halt_witness:
  "0 < length (procs (run example_config
         [Upload (Some upload_a) None None 1, Upload (Some upload_b) None None 2]
         (init example_world)))
   \<and> \<not> p_settled (procs (run example_config
         [Upload (Some upload_a) None None 1, Upload (Some upload_b) None None 2]
         (init example_world)) ! 0)
   \<and> files example_world (txtFile_of example_config ''/up/1-a.mp3'') = None
   \<and> transcriptions (step example_config (ProcError 0 ''ENOENT'')
        (run example_config
           [Upload (Some upload_a) None None 1, Upload (Some upload_b) None None 2]
           (init example_world))) ''1'' =
       Some (Error ''Failed to process file in queue'' (Some ''ENOENT''))
   \<and> transcriptions (step example_config (Close 0 (Some 1) 3)
        (run example_config
           [Upload (Some upload_a) None None 1, Upload (Some upload_b) None None 2]
           (init example_world))) ''1'' =
       Some (Error ''Failed to process file in queue'' (Some ''Transcription file not found''))
   \<and> map jobId (dispatched (step example_config (ProcError 0 ''ENOENT'')
        (run example_config
           [Upload (Some upload_a) None None 1, Upload (Some upload_b) None None 2]
           (init example_world)))) = [''1'', ''2'']
   \<and> isProcessing (step example_config (ProcError 0 ''ENOENT'')
        (run example_config
           [Upload (Some upload_a) None None 1, Upload (Some upload_b) None None 2]
           (init example_world)))
   \<and> \<not> blocked ((init faulty_world)\<lparr>transcriptionQueue :=
          [\<lparr>filePath = ''/up/1-a.mp3'', jobId = ''1'', model = ''medium'', language = ''en''\<rparr>,
           \<lparr>filePath = ''/up/9-gone.mp3'', jobId = ''2'', model = ''medium'',
             language = ''en''\<rparr>]\<rparr>)
   \<and> fst (start_head example_config ((init faulty_world)\<lparr>transcriptionQueue :=
          [\<lparr>filePath = ''/up/1-a.mp3'', jobId = ''1'', model = ''medium'', language = ''en''\<rparr>,
           \<lparr>filePath = ''/up/9-gone.mp3'', jobId = ''2'', model = ''medium'',
             language = ''en''\<rparr>]\<rparr>)) = Rejected ''EINVAL''
   \<and> transcriptions (processQueue example_config ((init faulty_world)\<lparr>transcriptionQueue :=
          [\<lparr>filePath = ''/up/1-a.mp3'', jobId = ''1'', model = ''medium'', language = ''en''\<rparr>,
           \<lparr>filePath = ''/up/9-gone.mp3'', jobId = ''2'', model = ''medium'',
             language = ''en''\<rparr>]\<rparr>)) ''1'' =
       Some (Error ''Failed to process file in queue'' (Some ''EINVAL''))
   \<and> transcriptions (processQueue example_config ((init faulty_world)\<lparr>transcriptionQueue :=
          [\<lparr>filePath = ''/up/1-a.mp3'', jobId = ''1'', model = ''medium'', language = ''en''\<rparr>,
           \<lparr>filePath = ''/up/9-gone.mp3'', jobId = ''2'', model = ''medium'',
             language = ''en''\<rparr>]\<rparr>)) ''2'' =
       Some (Error ''Input file not found: /up/9-gone.mp3'' None)"
proof -
  let ?es = "[Upload (Some upload_a) None None 1, Upload (Some upload_b) None None 2]"
  let ?s = "run example_config ?es (init example_world)"
  let ?t = "(init faulty_world)\<lparr>transcriptionQueue :=
          [\<lparr>filePath = ''/up/1-a.mp3'', jobId = ''1'', model = ''medium'', language = ''en''\<rparr>,
           \<lparr>filePath = ''/up/9-gone.mp3'', jobId = ''2'', model = ''medium'',
             language = ''en''\<rparr>]\<rparr>"
  have a: "?s = run example_config ?es (init example_world)" by (rule refl)
  have b: "0 < length (procs ?s)" by (simp add: eval_defs example_defs)
  have c: "\<not> p_settled (procs ?s ! 0)" by (simp add: eval_defs example_defs)
  have d1: "ProcError 0 ''ENOENT'' = ProcError 0 ''ENOENT'' \<and> ''ENOENT'' = ''ENOENT''
         \<or> ProcError 0 ''ENOENT'' = Close 0 (Some 1) 3 \<and> ''ENOENT'' = ''Transcription file not found''
            \<and> files (env ?s) (txtFile_of example_config (p_inputPath (procs ?s ! 0))) = None"
    by simp
  have d2: "Close 0 (Some 1) 3 = ProcError 0 ''ENOENT''
              \<and> ''Transcription file not found'' = ''ENOENT''
         \<or> Close 0 (Some 1) 3 = Close 0 (Some 1) 3
            \<and> ''Transcription file not found'' = ''Transcription file not found''
            \<and> files (env ?s) (txtFile_of example_config (p_inputPath (procs ?s ! 0))) = None"
    by (simp add: eval_defs example_defs)
  from failure_does_not_halt [OF a b c d1, of ?t "''EINVAL''"]
       failure_does_not_halt [OF a b c d2, of ?t "''EINVAL''"]
  show ?thesis
    by (simp add: eval_defs example_defs pass_def)
qed

subsection \<open>The status of a job\<close>





end
